theory Spec2Isabelle
  imports Main
begin

unbundle bit_operations_syntax

section \<open>Python values, exceptions and module constants\<close>

text \<open>
  The scalars that travel through \<^verbatim>\<open>model.py\<close>: \<^verbatim>\<open>None\<close>, numbers and text.
  Numbers are restricted to integers (a numeric cell that the xlwings host hands over
  as the float \<^verbatim>\<open>n.0\<close> is the integer \<^verbatim>\<open>n\<close>; Python's \<^verbatim>\<open>==\<close> identifies the two).
  \<^verbatim>\<open>isinstance(v, int)\<close> and \<^verbatim>\<open>isinstance(v, str)\<close> are the two type tests of the source.
\<close>

datatype pyval = PNone | PInt int | PStr string

datatype error = TypeError | ValueError | AssertionError | AttributeError | IndexError | HostError

fun isinstance_int :: "pyval \<Rightarrow> bool" where
  "isinstance_int (PInt n) = True"
| "isinstance_int v = False"

fun isinstance_str :: "pyval \<Rightarrow> bool" where
  "isinstance_str (PStr s) = True"
| "isinstance_str v = False"

definition DEFAULT_COLOR :: int where
  "DEFAULT_COLOR = - 1"

definition MAX_CELL_GAP :: int where
  "MAX_CELL_GAP = 10"

text \<open>\<^verbatim>\<open>range(a, b)\<close> of Python, as the list it runs through.\<close>

function py_range :: "int \<Rightarrow> int \<Rightarrow> int list" where
  "py_range a b = (if a < b then a # py_range (a + 1) b else [])"
  by pat_completeness auto
termination
  by (relation "measure (\<lambda>(a, b). nat (b - a))") auto

declare py_range.simps [simp del]

text \<open>
  \<^verbatim>\<open>str(n)\<close> for an integer: its decimal digits, with a sign. (For a float \<^verbatim>\<open>n.0\<close>
  Python writes the same digits followed by \<^verbatim>\<open>.0\<close> up to 16 digits and an exponent
  form from \<^verbatim>\<open>1e16\<close> on; neither is ever the empty string.)
\<close>

fun str_nat :: "nat \<Rightarrow> string" where
  "str_nat n = (if n < 10 then [''0123456789'' ! n]
                else str_nat (n div 10) @ [''0123456789'' ! (n mod 10)])"

declare str_nat.simps [simp del]

definition str_int :: "int \<Rightarrow> string" where
  "str_int n = (if n < 0 then CHR ''-'' # str_nat (nat (- n)) else str_nat (nat n))"

section \<open>Color\<close>

text \<open>
  \<^verbatim>\<open>class Color\<close>: the constructor takes an int, a tuple, a str, another Color or anything
  else; the object holds the packed integer in its field \<^verbatim>\<open>color\<close>.
\<close>

record Color =
  color :: int

datatype color_id =
    ColorInt int
  | ColorTuple "pyval list"
  | ColorStr string
  | ColorObj Color
  | ColorOther

text \<open>
  The test of the list comprehension: \<^verbatim>\<open>not isinstance(value, int) or value > 255\<close>.
  Both \<^verbatim>\<open>raise ValueError(... % color)\<close> of the tuple branch format their message with
  the tuple itself on the right of \<^verbatim>\<open>%\<close>: with one \<^verbatim>\<open>%s\<close> in the message that
  succeeds for a tuple of length 1 only and raises TypeError for every other length, so
  a tuple of three with a bad channel raises TypeError.
\<close>

fun bad_channel :: "pyval \<Rightarrow> bool" where
  "bad_channel (PInt n) = (n > 255)"
| "bad_channel v = True"

fun Color_init :: "color_id \<Rightarrow> error + Color" where
  "Color_init (ColorInt n) = Inr \<lparr>color = n\<rparr>"
| "Color_init (ColorTuple vs) =
     (if length vs \<noteq> 3 then (if length vs = 1 then Inl ValueError else Inl TypeError)
      else if list_ex bad_channel vs then Inl TypeError
      else (case vs of
              [PInt r, PInt g, PInt b] \<Rightarrow> Inr \<lparr>color = push_bit 16 r + push_bit 8 g + b\<rparr>
            | _ \<Rightarrow> Inl ValueError))"
| "Color_init (ColorStr s) = Inl ValueError"
| "Color_init (ColorObj c) = Inr \<lparr>color = color c\<rparr>"
| "Color_init ColorOther = Inl TypeError"

definition rgb :: "Color \<Rightarrow> int \<times> int \<times> int" where
  "rgb c = (drop_bit 16 (color c) AND 255, drop_bit 8 (color c) AND 255, color c AND 255)"

section \<open>The host sheet and the Sheet object\<close>

text \<open>
  The two backends keep a cell in objects of their own. What the source reads and writes
  of them is a field of a record here:
  \<^item> xlwings: \<^verbatim>\<open>Range.value\<close> (None, a number or text) and \<^verbatim>\<open>Range.color\<close>
    (None or an RGB triple), the range found by \<^verbatim>\<open>sheet.range(row, column)\<close>, 1-based;
  \<^item> PyUno: \<^verbatim>\<open>FormulaResultType.value\<close>, \<^verbatim>\<open>getString()\<close>, \<^verbatim>\<open>getValue()\<close> and
    \<^verbatim>\<open>CellBackColor\<close>, the cell found by \<^verbatim>\<open>getCellByPosition(x, y)\<close>, 0-based.
  A position outside the host's grid (a row or column below the first) is a host
  exception; the grid has no upper bound here.
\<close>

record xw_range =
  range_value :: pyval
  range_color :: "(int \<times> int \<times> int) option"

record uno_cell =
  FormulaResultType :: string
  getString :: string
  getValue :: int
  CellBackColor :: int

datatype i7e =
    XW "int \<times> int \<Rightarrow> xw_range"
  | Uno "int \<times> int \<Rightarrow> uno_cell"

record Sheet =
  i7e_sheet :: i7e
  reference_row_index :: int
  reference_column_index :: int

datatype Cell = Cell (position: "int \<times> int")

definition cell_x :: "Cell \<Rightarrow> int" where
  "cell_x c = fst (position c)"

definition cell_y :: "Cell \<Rightarrow> int" where
  "cell_y c = snd (position c)"

text \<open>
  \<^verbatim>\<open>Office.XW.Cell._range\<close>: the position is corrected to the 1-based index of the host
  and passed as (row, column).
\<close>

definition xw_range_of :: "(int \<times> int \<Rightarrow> xw_range) \<Rightarrow> Cell \<Rightarrow> error + (int \<times> int)" where
  "xw_range_of f c =
     (let x = cell_x c + 1; y = cell_y c + 1
      in if y < 1 \<or> x < 1 then Inl HostError else Inr (y, x))"

text \<open>\<^verbatim>\<open>Office.Uno.Cell._source_cell\<close>: \<^verbatim>\<open>getCellByPosition(*self.position)\<close>.\<close>

definition uno_source_cell :: "(int \<times> int \<Rightarrow> uno_cell) \<Rightarrow> Cell \<Rightarrow> error + (int \<times> int)" where
  "uno_source_cell g c =
     (if cell_x c < 0 \<or> cell_y c < 0 then Inl HostError else Inr (position c))"

text \<open>The property \<^verbatim>\<open>Cell.value\<close> (getter) of the two backends.\<close>

definition Cell_value :: "Sheet \<Rightarrow> Cell \<Rightarrow> error + pyval" where
  "Cell_value sheet c =
     (case i7e_sheet sheet of
        XW f \<Rightarrow>
          (case xw_range_of f c of
             Inl e \<Rightarrow> Inl e
           | Inr p \<Rightarrow> Inr (range_value (f p)))
      | Uno g \<Rightarrow>
          (case uno_source_cell g c of
             Inl e \<Rightarrow> Inl e
           | Inr p \<Rightarrow>
               (let t = FormulaResultType (g p)
                in if t = ''TEXT'' then Inr (PStr (getString (g p)))
                   else if t = ''VALUE'' then Inr (PInt (getValue (g p)))
                   else Inr PNone)))"

text \<open>
  The property \<^verbatim>\<open>Cell.string\<close>: under xlwings the empty string for None and
  \<^verbatim>\<open>str(self.value)\<close> otherwise (for a float ending in \<^verbatim>\<open>.0\<close> without those two
  characters, which leaves the digits of the integer); under PyUno the host's
  \<^verbatim>\<open>getString()\<close>.
\<close>

definition Cell_string :: "Sheet \<Rightarrow> Cell \<Rightarrow> error + string" where
  "Cell_string sheet c =
     (case i7e_sheet sheet of
        XW f \<Rightarrow>
          (case xw_range_of f c of
             Inl e \<Rightarrow> Inl e
           | Inr p \<Rightarrow>
               (case range_value (f p) of
                  PNone \<Rightarrow> Inr ''''
                | PInt n \<Rightarrow> Inr (str_int n)
                | PStr s \<Rightarrow> Inr s))
      | Uno g \<Rightarrow>
          (case uno_source_cell g c of
             Inl e \<Rightarrow> Inl e
           | Inr p \<Rightarrow> Inr (getString (g p))))"

section \<open>Lines\<close>

datatype line_cls = Row | Column

record Line =
  line_cls :: line_cls
  line_index :: int
  reference_index :: int

text \<open>
  \<^verbatim>\<open>Line.__init__(sheet, index, reference_index)\<close>, reached from the constructors of
  \<^verbatim>\<open>Office.XW.Row\<close>, \<^verbatim>\<open>Office.XW.Column\<close>, \<^verbatim>\<open>Office.Uno.Row\<close> and \<^verbatim>\<open>Office.Uno.Column\<close>
  through \<^verbatim>\<open>super().__init__\<close>. The sheet argument is a Sheet by its type. The last
  assignment of the source stores \<^verbatim>\<open>index\<close> in \<^verbatim>\<open>self.reference_index\<close>.
\<close>

fun Line_init :: "line_cls \<Rightarrow> pyval \<Rightarrow> pyval \<Rightarrow> error + Line" where
  "Line_init cls (PInt index) (PInt reference_index') =
     Inr \<lparr>line_cls = cls, line_index = index, reference_index = index\<rparr>"
| "Line_init cls index reference_index' = Inl TypeError"

text \<open>
  \<^verbatim>\<open>get_row_by_index\<close> and \<^verbatim>\<open>get_column_by_index\<close> of \<^verbatim>\<open>Office.XW.Sheet\<close> and
  \<^verbatim>\<open>Office.Uno.Sheet\<close>.
\<close>

definition get_row_by_index :: "Sheet \<Rightarrow> pyval \<Rightarrow> error + Line" where
  "get_row_by_index sheet row_index =
     (case i7e_sheet sheet of
        XW f \<Rightarrow>
          (case row_index of
             PInt n \<Rightarrow>
               (if n < 0 then Inl ValueError
                else Line_init Row row_index (PInt (reference_row_index sheet)))
           | _ \<Rightarrow> Inl TypeError)
      | Uno g \<Rightarrow>
          (if \<not> isinstance_int row_index then Inl TypeError
           else Line_init Row row_index (PInt (reference_row_index sheet))))"

definition get_column_by_index :: "Sheet \<Rightarrow> pyval \<Rightarrow> error + Line" where
  "get_column_by_index sheet column_index =
     (case i7e_sheet sheet of
        XW f \<Rightarrow>
          (case column_index of
             PInt n \<Rightarrow>
               (if n < 0 then Inl ValueError
                else Line_init Column column_index (PInt (reference_row_index sheet)))
           | _ \<Rightarrow> Inl TypeError)
      | Uno g \<Rightarrow>
          (case column_index of
             PInt n \<Rightarrow>
               (if n < 0 then Inl ValueError
                else Line_init Column column_index (PInt (reference_column_index sheet)))
           | _ \<Rightarrow> Inl TypeError))"

text \<open>
  \<^verbatim>\<open>get_cell_by_index\<close> of the four line classes: the xlwings classes refuse a negative
  index, the PyUno classes test the type only. A Column at index \<open>c\<close> gives the cell
  \<open>(c, index)\<close>, a Row at index \<open>r\<close> the cell \<open>(index, r)\<close>.
\<close>

definition get_cell_by_index :: "Sheet \<Rightarrow> Line \<Rightarrow> pyval \<Rightarrow> error + Cell" where
  "get_cell_by_index sheet line index =
     (case index of
        PInt n \<Rightarrow>
          (case i7e_sheet sheet of
             XW f \<Rightarrow>
               (if n < 0 then Inl ValueError
                else if line_cls line = Column then Inr (Cell (line_index line, n))
                else Inr (Cell (n, line_index line)))
           | Uno g \<Rightarrow>
               (if line_cls line = Column then Inr (Cell (line_index line, n))
                else Inr (Cell (n, line_index line))))
      | _ \<Rightarrow> Inl TypeError)"

text \<open>
  \<^verbatim>\<open>Sheet.get_cell((x, y))\<close> for two integers and no keyword argument, as
  \<^verbatim>\<open>CellLine.__next__\<close> calls it: neither identifier is a str and both type hints are
  None, so the column is found by index and the cell in it by index.
\<close>

definition get_cell_xy :: "Sheet \<Rightarrow> int \<times> int \<Rightarrow> error + Cell" where
  "get_cell_xy sheet p =
     (case get_column_by_index sheet (PInt (fst p)) of
        Inl e \<Rightarrow> Inl e
      | Inr column \<Rightarrow> get_cell_by_index sheet column (PInt (snd p)))"

section \<open>CellLine: the gap-tolerant iterator\<close>

datatype axis = AxisX | AxisY

record CellLine =
  cl_axis :: axis
  cl_index :: int
  cl_i :: int
  highest_inhabited_i :: int

definition CellLine_init :: "axis \<Rightarrow> int \<Rightarrow> CellLine" where
  "CellLine_init ax index = \<lparr>cl_axis = ax, cl_index = index, cl_i = 0, highest_inhabited_i = - 1\<rparr>"

text \<open>
  \<^verbatim>\<open>(self.index, j) if self.axis == 'y' else (j, self.index)\<close>: the position of the
  \<open>j\<close>-th cell of the line.
\<close>

definition line_position :: "axis \<Rightarrow> int \<Rightarrow> int \<Rightarrow> int \<times> int" where
  "line_position ax index j = (if ax = AxisY then (index, j) else (j, index))"

text \<open>
  The \<^verbatim>\<open>for i in range(1, MAX_CELL_GAP)\<close> loop of \<^verbatim>\<open>__next__\<close>: the first offset whose
  cell has a non-empty string, or None when the loop ends without \<^verbatim>\<open>break\<close>.
\<close>

fun probe :: "Sheet \<Rightarrow> CellLine \<Rightarrow> int list \<Rightarrow> error + int option" where
  "probe sheet it [] = Inr None"
| "probe sheet it (i # is) =
     (case get_cell_xy sheet (line_position (cl_axis it) (cl_index it) (cl_i it + i)) of
        Inl e \<Rightarrow> Inl e
      | Inr test_cell \<Rightarrow>
          (case Cell_string sheet test_cell of
             Inl e \<Rightarrow> Inl e
           | Inr s \<Rightarrow> if s \<noteq> '''' then Inr (Some (cl_i it + i)) else probe sheet it is))"

text \<open>
  \<^verbatim>\<open>CellLine.__next__\<close>: \<open>Inr None\<close> is StopIteration, \<open>Inr (Some (cell, it'))\<close> the cell
  returned and the iterator after the call.
\<close>

definition CellLine_next :: "Sheet \<Rightarrow> CellLine \<Rightarrow> error + (Cell \<times> CellLine) option" where
  "CellLine_next sheet it =
     (case get_cell_xy sheet (line_position (cl_axis it) (cl_index it) (cl_i it)) of
        Inl e \<Rightarrow> Inl e
      | Inr cell \<Rightarrow>
          (case Cell_string sheet cell of
             Inl e \<Rightarrow> Inl e
           | Inr s \<Rightarrow>
               (if s = '''' \<and> cl_i it > highest_inhabited_i it then
                  (case probe sheet it (py_range 1 MAX_CELL_GAP) of
                     Inl e \<Rightarrow> Inl e
                   | Inr None \<Rightarrow> Inr None
                   | Inr (Some h) \<Rightarrow>
                       Inr (Some (cell, it\<lparr>highest_inhabited_i := h, cl_i := cl_i it + 1\<rparr>)))
                else Inr (Some (cell, it\<lparr>cl_i := cl_i it + 1\<rparr>)))))"

text \<open>
  Running the iterator to its end and collecting what it returns (\<^verbatim>\<open>list(it)\<close>, or a
  \<^verbatim>\<open>for\<close> loop over it). The loop need not end: a line inhabited without end is never
  exhausted, and then the value is None.
\<close>

partial_function (option) CellLine_cells :: "Sheet \<Rightarrow> CellLine \<Rightarrow> Cell list \<Rightarrow> (error + Cell list) option" where
  "CellLine_cells sheet it acc =
     (case CellLine_next sheet it of
        Inl e \<Rightarrow> Some (Inl e)
      | Inr None \<Rightarrow> Some (Inr acc)
      | Inr (Some (cell, it')) \<Rightarrow> CellLine_cells sheet it' (acc @ [cell]))"

text \<open>
  The \<open>j\<close>-th cell of the line an iterator runs along, and the emptiness test of
  \<^verbatim>\<open>__next__\<close>: \<^verbatim>\<open>cell.string == ''\<close>.
\<close>

definition line_cell :: "axis \<Rightarrow> int \<Rightarrow> int \<Rightarrow> Cell" where
  "line_cell ax index j = Cell (line_position ax index j)"

definition cell_is_empty :: "Sheet \<Rightarrow> Cell \<Rightarrow> bool" where
  "cell_is_empty sheet c = (Cell_string sheet c = Inr '''')"

section \<open>Iterating and measuring a line\<close>

text \<open>
  \<^verbatim>\<open>Line.get_iterator(axis)\<close> is \<^verbatim>\<open>CellLine(self.sheet, axis, self.index)\<close>. \<^verbatim>\<open>__iter__\<close> of
  \<^verbatim>\<open>Office.XW.Column\<close> and \<^verbatim>\<open>Office.Uno.Column\<close> returns the iterator of axis y, that of
  \<^verbatim>\<open>Office.XW.Row\<close> the iterator of axis x. \<^verbatim>\<open>Office.Uno.Row.__iter__\<close> calls
  \<^verbatim>\<open>get_iterator\<close> and returns nothing, so \<^verbatim>\<open>iter()\<close> of such a row raises TypeError.
\<close>

definition get_iterator :: "Line \<Rightarrow> axis \<Rightarrow> CellLine" where
  "get_iterator line ax = CellLine_init ax (line_index line)"

definition Line_iter :: "Sheet \<Rightarrow> Line \<Rightarrow> error + CellLine" where
  "Line_iter sheet line =
     (case i7e_sheet sheet of
        XW f \<Rightarrow>
          (if line_cls line = Column then Inr (get_iterator line AxisY)
           else Inr (get_iterator line AxisX))
      | Uno g \<Rightarrow>
          (if line_cls line = Column then Inr (get_iterator line AxisY)
           else Inl TypeError))"

text \<open>
  The axis a line's cells run along, and its \<open>j\<close>-th cell: \<open>(index, j)\<close> for a
  Column, \<open>(j, index)\<close> for a Row, as \<^verbatim>\<open>get_cell_by_index\<close> has it.
\<close>

definition Line_axis :: "Line \<Rightarrow> axis" where
  "Line_axis line = (if line_cls line = Column then AxisY else AxisX)"

definition Line_cell :: "Line \<Rightarrow> int \<Rightarrow> Cell" where
  "Line_cell line j = line_cell (Line_axis line) (line_index line) j"

text \<open>
  \<^verbatim>\<open>__len__\<close> of \<^verbatim>\<open>Office.XW.Line\<close> and \<^verbatim>\<open>Office.Uno.Line\<close>: a count of what the iteration
  returns. A Line has no \<^verbatim>\<open>__bool__\<close>, so its truth value is \<^verbatim>\<open>len(line) != 0\<close>.
\<close>

partial_function (option) Line_len_loop :: "Sheet \<Rightarrow> CellLine \<Rightarrow> int \<Rightarrow> (error + int) option" where
  "Line_len_loop sheet it count =
     (case CellLine_next sheet it of
        Inl e \<Rightarrow> Some (Inl e)
      | Inr None \<Rightarrow> Some (Inr count)
      | Inr (Some (each, it')) \<Rightarrow> Line_len_loop sheet it' (count + 1))"

definition Line_len :: "Sheet \<Rightarrow> Line \<Rightarrow> (error + int) option" where
  "Line_len sheet line =
     (case Line_iter sheet line of
        Inl e \<Rightarrow> Some (Inl e)
      | Inr it \<Rightarrow> Line_len_loop sheet it 0)"

definition Line_bool :: "Sheet \<Rightarrow> Line \<Rightarrow> (error + bool) option" where
  "Line_bool sheet line =
     (case Line_len sheet line of
        None \<Rightarrow> None
      | Some (Inl e) \<Rightarrow> Some (Inl e)
      | Some (Inr n) \<Rightarrow> Some (Inr (n \<noteq> 0)))"

section \<open>Reference lines and LineSeries\<close>

text \<open>
  \<^verbatim>\<open>Sheet.reference_row\<close> is \<^verbatim>\<open>self.get_row(self.reference_row_index)\<close> and
  \<^verbatim>\<open>Cell.row\<close> is \<^verbatim>\<open>self.sheet.get_row(self.y)\<close>: the identifier is an int, the
  \<^verbatim>\<open>isinstance(_, str)\<close> test of \<^verbatim>\<open>get_row\<close> fails and the call is
  \<^verbatim>\<open>get_row_by_index\<close>. The same holds for the columns.
\<close>

definition reference_row :: "Sheet \<Rightarrow> error + Line" where
  "reference_row sheet = get_row_by_index sheet (PInt (reference_row_index sheet))"

definition reference_column :: "Sheet \<Rightarrow> error + Line" where
  "reference_column sheet = get_column_by_index sheet (PInt (reference_column_index sheet))"

definition Cell_row :: "Sheet \<Rightarrow> Cell \<Rightarrow> error + Line" where
  "Cell_row sheet c = get_row_by_index sheet (PInt (cell_y c))"

definition Cell_column :: "Sheet \<Rightarrow> Cell \<Rightarrow> error + Line" where
  "Cell_column sheet c = get_column_by_index sheet (PInt (cell_x c))"

record LineSeries =
  reference_line :: Line

text \<open>The properties \<^verbatim>\<open>Sheet.columns\<close> and \<^verbatim>\<open>Sheet.rows\<close>.\<close>

definition Sheet_columns :: "Sheet \<Rightarrow> error + LineSeries" where
  "Sheet_columns sheet =
     (case reference_row sheet of
        Inl e \<Rightarrow> Inl e
      | Inr line \<Rightarrow> Inr \<lparr>reference_line = line\<rparr>)"

definition Sheet_rows :: "Sheet \<Rightarrow> error + LineSeries" where
  "Sheet_rows sheet =
     (case reference_column sheet of
        Inl e \<Rightarrow> Inl e
      | Inr line \<Rightarrow> Inr \<lparr>reference_line = line\<rparr>)"

definition contents_type :: "LineSeries \<Rightarrow> string" where
  "contents_type series =
     (if line_cls (reference_line series) = Row then ''columns'' else ''rows'')"

text \<open>
  The generator \<^verbatim>\<open>LineSeries.__iter__\<close>: it runs the iterator of the reference line and
  yields the row or the column of each cell. \<open>LineSeries_iter\<close> starts it,
  \<open>LineSeries_next\<close> is one \<^verbatim>\<open>__next__\<close> of it.
\<close>

definition LineSeries_iter :: "Sheet \<Rightarrow> LineSeries \<Rightarrow> error + CellLine" where
  "LineSeries_iter sheet series = Line_iter sheet (reference_line series)"

definition LineSeries_next :: "Sheet \<Rightarrow> LineSeries \<Rightarrow> CellLine \<Rightarrow> error + (Line \<times> CellLine) option" where
  "LineSeries_next sheet series gen =
     (case CellLine_next sheet gen of
        Inl e \<Rightarrow> Inl e
      | Inr None \<Rightarrow> Inr None
      | Inr (Some (cell, gen')) \<Rightarrow>
          (if contents_type series = ''rows'' then
             (case Cell_row sheet cell of
                Inl e \<Rightarrow> Inl e
              | Inr line \<Rightarrow> Inr (Some (line, gen')))
           else
             (case Cell_column sheet cell of
                Inl e \<Rightarrow> Inl e
              | Inr line \<Rightarrow> Inr (Some (line, gen')))))"

text \<open>
  \<^verbatim>\<open>LineSeries.__len__\<close>. Every test of the \<^verbatim>\<open>while\<close> loop builds a new generator with
  \<^verbatim>\<open>self.__iter__()\<close> and takes its first element, whose truth value decides the loop.
  StopIteration returns the count (\<open>Some count\<close>); a false first element ends the loop
  and the method returns nothing (\<open>None\<close> inside \<open>Inr\<close>); a loop that never ends is
  the value \<open>None\<close> of the option type outside.
\<close>

partial_function (option) LineSeries_len_loop :: "Sheet \<Rightarrow> LineSeries \<Rightarrow> int \<Rightarrow> (error + int option) option" where
  "LineSeries_len_loop sheet series count =
     (case LineSeries_iter sheet series of
        Inl e \<Rightarrow> Some (Inl e)
      | Inr gen \<Rightarrow>
          (case LineSeries_next sheet series gen of
             Inl e \<Rightarrow> Some (Inl e)
           | Inr None \<Rightarrow> Some (Inr (Some count))
           | Inr (Some (line, gen')) \<Rightarrow>
               (case Line_bool sheet line of
                  None \<Rightarrow> None
                | Some (Inl e) \<Rightarrow> Some (Inl e)
                | Some (Inr truth) \<Rightarrow>
                    if truth then LineSeries_len_loop sheet series (count + 1)
                    else Some (Inr None))))"

definition LineSeries_len :: "Sheet \<Rightarrow> LineSeries \<Rightarrow> (error + int option) option" where
  "LineSeries_len sheet series = LineSeries_len_loop sheet series 0"

text \<open>
  The length the claim speaks of: the number of lines one traversal of the series
  produces (\<^verbatim>\<open>for line in series\<close>, counted).
\<close>

partial_function (option) LineSeries_count :: "Sheet \<Rightarrow> LineSeries \<Rightarrow> CellLine \<Rightarrow> int \<Rightarrow> (error + int) option" where
  "LineSeries_count sheet series gen count =
     (case LineSeries_next sheet series gen of
        Inl e \<Rightarrow> Some (Inl e)
      | Inr None \<Rightarrow> Some (Inr count)
      | Inr (Some (line, gen')) \<Rightarrow> LineSeries_count sheet series gen' (count + 1))"

text \<open>\<^verbatim>\<open>LineSeries.get_by_name\<close>: the loop over the cells of the reference line.\<close>

partial_function (option) get_by_name_loop :: "Sheet \<Rightarrow> LineSeries \<Rightarrow> CellLine \<Rightarrow> pyval \<Rightarrow> (error + Line option) option" where
  "get_by_name_loop sheet series it name =
     (case CellLine_next sheet it of
        Inl e \<Rightarrow> Some (Inl e)
      | Inr None \<Rightarrow> Some (Inr None)
      | Inr (Some (cell, it')) \<Rightarrow>
          (case Cell_value sheet cell of
             Inl e \<Rightarrow> Some (Inl e)
           | Inr v \<Rightarrow>
               if v = name then
                 (if contents_type series = ''columns'' then
                    (case Cell_column sheet cell of
                       Inl e \<Rightarrow> Some (Inl e)
                     | Inr line \<Rightarrow> Some (Inr (Some line)))
                  else
                    (case Cell_row sheet cell of
                       Inl e \<Rightarrow> Some (Inl e)
                     | Inr line \<Rightarrow> Some (Inr (Some line))))
               else get_by_name_loop sheet series it' name))"

definition get_by_name :: "Sheet \<Rightarrow> LineSeries \<Rightarrow> pyval \<Rightarrow> (error + Line option) option" where
  "get_by_name sheet series name =
     (case Line_iter sheet (reference_line series) of
        Inl e \<Rightarrow> Some (Inl e)
      | Inr it \<Rightarrow> get_by_name_loop sheet series it name)"

section \<open>Lookup by name\<close>

text \<open>
  The loop \<^verbatim>\<open>for i, cell in enumerate(line): if cell.value == name: return i\<close> of
  \<^verbatim>\<open>Sheet.get_column_index_from_name\<close> and (with the cell of that index returned) of
  \<^verbatim>\<open>Line.get_cell_by_reference\<close>; falling off its end returns None.
\<close>

partial_function (option) enumerate_find :: "Sheet \<Rightarrow> CellLine \<Rightarrow> int \<Rightarrow> pyval \<Rightarrow> (error + int option) option" where
  "enumerate_find sheet it i name =
     (case CellLine_next sheet it of
        Inl e \<Rightarrow> Some (Inl e)
      | Inr None \<Rightarrow> Some (Inr None)
      | Inr (Some (cell, it')) \<Rightarrow>
          (case Cell_value sheet cell of
             Inl e \<Rightarrow> Some (Inl e)
           | Inr v \<Rightarrow>
               if v = name then Some (Inr (Some i))
               else enumerate_find sheet it' (i + 1) name))"

definition get_column_index_from_name :: "Sheet \<Rightarrow> pyval \<Rightarrow> (error + int option) option" where
  "get_column_index_from_name sheet column_name =
     (case reference_row sheet of
        Inl e \<Rightarrow> Some (Inl e)
      | Inr line \<Rightarrow>
          (case Line_iter sheet line of
             Inl e \<Rightarrow> Some (Inl e)
           | Inr it \<Rightarrow> enumerate_find sheet it 0 column_name))"

definition get_column_by_name :: "Sheet \<Rightarrow> pyval \<Rightarrow> (error + Line option) option" where
  "get_column_by_name sheet column_name =
     (case get_column_index_from_name sheet column_name of
        None \<Rightarrow> None
      | Some (Inl e) \<Rightarrow> Some (Inl e)
      | Some (Inr None) \<Rightarrow> Some (Inr None)
      | Some (Inr (Some x)) \<Rightarrow>
          (case get_column_by_index sheet (PInt x) of
             Inl e \<Rightarrow> Some (Inl e)
           | Inr line \<Rightarrow> Some (Inr (Some line))))"

definition get_column :: "Sheet \<Rightarrow> pyval \<Rightarrow> (error + Line option) option" where
  "get_column sheet column_identifier =
     (if isinstance_str column_identifier then get_column_by_name sheet column_identifier
      else (case get_column_by_index sheet column_identifier of
              Inl e \<Rightarrow> Some (Inl e)
            | Inr line \<Rightarrow> Some (Inr (Some line))))"

text \<open>
  \<^verbatim>\<open>Sheet.get_row_index_from_name\<close> runs over \<^verbatim>\<open>self.rows\<close>, a LineSeries, whose elements
  are Row objects, and reads \<^verbatim>\<open>.value\<close> of each. No class of lines (Line, Row, Column or
  their backend subclasses) has an attribute \<^verbatim>\<open>value\<close>: reading it raises.
\<close>

definition Line_value :: "Line \<Rightarrow> error + pyval" where
  "Line_value line = Inl AttributeError"

partial_function (option) get_row_index_from_name_loop :: "Sheet \<Rightarrow> LineSeries \<Rightarrow> CellLine \<Rightarrow> int \<Rightarrow> pyval \<Rightarrow> (error + int option) option" where
  "get_row_index_from_name_loop sheet series gen y row_name =
     (case LineSeries_next sheet series gen of
        Inl e \<Rightarrow> Some (Inl e)
      | Inr None \<Rightarrow> Some (Inr None)
      | Inr (Some (cell, gen')) \<Rightarrow>
          (case Line_value cell of
             Inl e \<Rightarrow> Some (Inl e)
           | Inr v \<Rightarrow>
               if v = row_name then Some (Inr (Some y))
               else get_row_index_from_name_loop sheet series gen' (y + 1) row_name))"

definition get_row_index_from_name :: "Sheet \<Rightarrow> pyval \<Rightarrow> (error + int option) option" where
  "get_row_index_from_name sheet row_name =
     (case Sheet_rows sheet of
        Inl e \<Rightarrow> Some (Inl e)
      | Inr series \<Rightarrow>
          (case LineSeries_iter sheet series of
             Inl e \<Rightarrow> Some (Inl e)
           | Inr gen \<Rightarrow> get_row_index_from_name_loop sheet series gen 0 row_name))"

definition get_row_by_name :: "Sheet \<Rightarrow> pyval \<Rightarrow> (error + Line option) option" where
  "get_row_by_name sheet row_name =
     (case get_row_index_from_name sheet row_name of
        None \<Rightarrow> None
      | Some (Inl e) \<Rightarrow> Some (Inl e)
      | Some (Inr None) \<Rightarrow> Some (Inr None)
      | Some (Inr (Some y)) \<Rightarrow>
          (case get_row_by_index sheet (PInt y) of
             Inl e \<Rightarrow> Some (Inl e)
           | Inr line \<Rightarrow> Some (Inr (Some line))))"

definition get_row :: "Sheet \<Rightarrow> pyval \<Rightarrow> (error + Line option) option" where
  "get_row sheet row_identifier =
     (if isinstance_str row_identifier then get_row_by_name sheet row_identifier
      else (case get_row_by_index sheet row_identifier of
              Inl e \<Rightarrow> Some (Inl e)
            | Inr line \<Rightarrow> Some (Inr (Some line))))"

text \<open>
  \<^verbatim>\<open>Line.get_cell_by_reference\<close>: \<^verbatim>\<open>_reference_line\<close> is the sheet's reference column for
  a Column and its reference row for a Row.
\<close>

definition Line_reference_line :: "Sheet \<Rightarrow> Line \<Rightarrow> error + Line" where
  "Line_reference_line sheet line =
     (if line_cls line = Column then reference_column sheet else reference_row sheet)"

definition get_cell_by_reference :: "Sheet \<Rightarrow> Line \<Rightarrow> pyval \<Rightarrow> (error + Cell option) option" where
  "get_cell_by_reference sheet line reference =
     (case Line_reference_line sheet line of
        Inl e \<Rightarrow> Some (Inl e)
      | Inr ref \<Rightarrow>
          (case Line_iter sheet ref of
             Inl e \<Rightarrow> Some (Inl e)
           | Inr it \<Rightarrow>
               (case enumerate_find sheet it 0 reference of
                  None \<Rightarrow> None
                | Some (Inl e) \<Rightarrow> Some (Inl e)
                | Some (Inr None) \<Rightarrow> Some (Inr None)
                | Some (Inr (Some i)) \<Rightarrow>
                    (case get_cell_by_index sheet line (PInt i) of
                       Inl e \<Rightarrow> Some (Inl e)
                     | Inr cell \<Rightarrow> Some (Inr (Some cell))))))"

text \<open>
  \<^verbatim>\<open>Sheet.get_cell(cell_identifier, **kwargs)\<close> for a 2-tuple identifier. The two keyword
  arguments are \<open>None\<close> when absent. A column that was not found is None, and calling a
  method of None raises AttributeError.
\<close>

definition hint_ok :: "string option \<Rightarrow> bool" where
  "hint_ok h = (h = Some ''index'' \<or> h = Some ''name'' \<or> h = None)"

definition get_cell :: "Sheet \<Rightarrow> pyval \<times> pyval \<Rightarrow> string option \<Rightarrow> string option \<Rightarrow> (error + Cell option) option" where
  "get_cell sheet cell_identifier x_identifier_type y_identifier_type =
     (let x_identifier = fst cell_identifier; y_identifier = snd cell_identifier
      in if \<not> hint_ok x_identifier_type then Some (Inl AssertionError)
         else if \<not> hint_ok y_identifier_type then Some (Inl AssertionError)
         else
           (case (if x_identifier_type = Some ''name'' \<or>
                     x_identifier_type = None \<and> isinstance_str x_identifier
                  then get_column_by_name sheet x_identifier
                  else if \<not> isinstance_int x_identifier then Some (Inl AssertionError)
                  else (case get_column_by_index sheet x_identifier of
                          Inl e \<Rightarrow> Some (Inl e)
                        | Inr line \<Rightarrow> Some (Inr (Some line)))) of
              None \<Rightarrow> None
            | Some (Inl e) \<Rightarrow> Some (Inl e)
            | Some (Inr column) \<Rightarrow>
                (if y_identifier_type = Some ''name'' \<or>
                    x_identifier_type = None \<and> isinstance_str y_identifier
                 then
                   (case column of
                      None \<Rightarrow> Some (Inl AttributeError)
                    | Some line \<Rightarrow> get_cell_by_reference sheet line y_identifier)
                 else
                   (case column of
                      None \<Rightarrow> Some (Inl AttributeError)
                    | Some line \<Rightarrow>
                        (case get_cell_by_index sheet line y_identifier of
                           Inl e \<Rightarrow> Some (Inl e)
                         | Inr cell \<Rightarrow> Some (Inr (Some cell)))))))"

section \<open>Writing and clearing cells\<close>

text \<open>
  The host operations \<^verbatim>\<open>setString\<close> and \<^verbatim>\<open>setValue\<close> of a PyUno cell, as the host
  documents them: the cell becomes a text cell (an empty cell for the empty string) or a
  value cell.
\<close>

definition uno_setString :: "string \<Rightarrow> uno_cell \<Rightarrow> uno_cell" where
  "uno_setString s u =
     u\<lparr>FormulaResultType := (if s = '''' then ''EMPTY'' else ''TEXT''), getString := s, getValue := 0\<rparr>"

definition uno_setValue :: "int \<Rightarrow> uno_cell \<Rightarrow> uno_cell" where
  "uno_setValue n u = u\<lparr>FormulaResultType := ''VALUE'', getString := str_int n, getValue := n\<rparr>"

text \<open>
  The setter of \<^verbatim>\<open>Cell.value\<close>. xlwings: \<^verbatim>\<open>self._range.value = new_value\<close>. PyUno:
  \<^verbatim>\<open>assert isinstance(new_value, (str, int, float))\<close>, then the setter of \<^verbatim>\<open>string\<close>
  or of \<^verbatim>\<open>float\<close>.
\<close>

definition Cell_set_value :: "Sheet \<Rightarrow> Cell \<Rightarrow> pyval \<Rightarrow> error + Sheet" where
  "Cell_set_value sheet c new_value =
     (case i7e_sheet sheet of
        XW f \<Rightarrow>
          (case xw_range_of f c of
             Inl e \<Rightarrow> Inl e
           | Inr p \<Rightarrow> Inr (sheet\<lparr>i7e_sheet := XW (f(p := (f p)\<lparr>range_value := new_value\<rparr>))\<rparr>))
      | Uno g \<Rightarrow>
          (case new_value of
             PNone \<Rightarrow> Inl AssertionError
           | PStr s \<Rightarrow>
               (case uno_source_cell g c of
                  Inl e \<Rightarrow> Inl e
                | Inr p \<Rightarrow> Inr (sheet\<lparr>i7e_sheet := Uno (g(p := uno_setString s (g p)))\<rparr>))
           | PInt n \<Rightarrow>
               (case uno_source_cell g c of
                  Inl e \<Rightarrow> Inl e
                | Inr p \<Rightarrow> Inr (sheet\<lparr>i7e_sheet := Uno (g(p := uno_setValue n (g p)))\<rparr>))))"

text \<open>
  \<^verbatim>\<open>set_color\<close> for an int argument (\<^verbatim>\<open>Cell.clear\<close> passes \<^verbatim>\<open>DEFAULT_COLOR\<close>) and
  \<^verbatim>\<open>get_color\<close>. xlwings keeps None or an RGB triple, and \<^verbatim>\<open>get_color\<close> turns None
  into -1; PyUno keeps the integer in \<^verbatim>\<open>CellBackColor\<close>.
\<close>

definition Cell_set_color :: "Sheet \<Rightarrow> Cell \<Rightarrow> int \<Rightarrow> error + Sheet" where
  "Cell_set_color sheet c col =
     (case i7e_sheet sheet of
        XW f \<Rightarrow>
          (if col \<ge> 0 then
             (case Color_init (ColorInt col) of
                Inl e \<Rightarrow> Inl e
              | Inr color' \<Rightarrow>
                  (case xw_range_of f c of
                     Inl e \<Rightarrow> Inl e
                   | Inr p \<Rightarrow>
                       Inr (sheet\<lparr>i7e_sheet := XW (f(p := (f p)\<lparr>range_color := Some (rgb color')\<rparr>))\<rparr>)))
           else if col = - 1 then
             (case xw_range_of f c of
                Inl e \<Rightarrow> Inl e
              | Inr p \<Rightarrow> Inr (sheet\<lparr>i7e_sheet := XW (f(p := (f p)\<lparr>range_color := None\<rparr>))\<rparr>))
           else Inr sheet)
      | Uno g \<Rightarrow>
          (case uno_source_cell g c of
             Inl e \<Rightarrow> Inl e
           | Inr p \<Rightarrow> Inr (sheet\<lparr>i7e_sheet := Uno (g(p := (g p)\<lparr>CellBackColor := col\<rparr>))\<rparr>)))"

datatype color_val = ColorNum int | ColorRGB "int \<times> int \<times> int"

definition Cell_get_color :: "Sheet \<Rightarrow> Cell \<Rightarrow> error + color_val" where
  "Cell_get_color sheet c =
     (case i7e_sheet sheet of
        XW f \<Rightarrow>
          (case xw_range_of f c of
             Inl e \<Rightarrow> Inl e
           | Inr p \<Rightarrow>
               (case range_color (f p) of
                  None \<Rightarrow> Inr (ColorNum (- 1))
                | Some t \<Rightarrow> Inr (ColorRGB t)))
      | Uno g \<Rightarrow>
          (case uno_source_cell g c of
             Inl e \<Rightarrow> Inl e
           | Inr p \<Rightarrow> Inr (ColorNum (CellBackColor (g p)))))"

text \<open>\<^verbatim>\<open>Cell.clear\<close>: \<^verbatim>\<open>self.value = None\<close>, then \<^verbatim>\<open>self.set_color(DEFAULT_COLOR)\<close>.\<close>

definition Cell_clear :: "Sheet \<Rightarrow> Cell \<Rightarrow> error + Sheet" where
  "Cell_clear sheet c =
     (case Cell_set_value sheet c PNone of
        Inl e \<Rightarrow> Inl e
      | Inr sheet' \<Rightarrow> Cell_set_color sheet' c DEFAULT_COLOR)"

text \<open>
  \<^verbatim>\<open>Line.clear(include_header)\<close>: the list comprehension over \<^verbatim>\<open>enumerate(self)\<close>, which
  clears a cell when \<^verbatim>\<open>i > self.name_cell_index or include_header\<close>. The sheet changes
  while the iterator runs, so both are threaded through the loop.
\<close>

definition name_cell_index :: "Sheet \<Rightarrow> Line \<Rightarrow> int" where
  "name_cell_index sheet line =
     (if line_cls line = Column then reference_row_index sheet else reference_column_index sheet)"

partial_function (option) Line_clear_loop :: "Sheet \<Rightarrow> Line \<Rightarrow> CellLine \<Rightarrow> int \<Rightarrow> bool \<Rightarrow> (error + Sheet) option" where
  "Line_clear_loop sheet line it i include_header =
     (case CellLine_next sheet it of
        Inl e \<Rightarrow> Some (Inl e)
      | Inr None \<Rightarrow> Some (Inr sheet)
      | Inr (Some (cell, it')) \<Rightarrow>
          (if i > name_cell_index sheet line \<or> include_header then
             (case Cell_clear sheet cell of
                Inl e \<Rightarrow> Some (Inl e)
              | Inr sheet' \<Rightarrow> Line_clear_loop sheet' line it' (i + 1) include_header)
           else Line_clear_loop sheet line it' (i + 1) include_header))"

definition Line_clear :: "Sheet \<Rightarrow> Line \<Rightarrow> bool \<Rightarrow> (error + Sheet) option" where
  "Line_clear sheet line include_header =
     (case Line_iter sheet line of
        Inl e \<Rightarrow> Some (Inl e)
      | Inr it \<Rightarrow> Line_clear_loop sheet line it 0 include_header)"

section \<open>Example sheets\<close>

text \<open>
  An xlwings sheet and a PyUno sheet whose only inhabited cells are in the first row:
  column \<open>j\<close> (0-based) of that row holds \<open>contents j\<close>. Both reference indices are 0.
\<close>

definition xw_row_sheet :: "(int \<Rightarrow> pyval) \<Rightarrow> Sheet" where
  "xw_row_sheet contents =
     \<lparr>i7e_sheet = XW (\<lambda>p. \<lparr>range_value = (if fst p = 1 then contents (snd p - 1) else PNone),
                            range_color = None\<rparr>),
      reference_row_index = 0, reference_column_index = 0\<rparr>"

definition uno_empty_sheet :: Sheet where
  "uno_empty_sheet =
     \<lparr>i7e_sheet = Uno (\<lambda>p. \<lparr>FormulaResultType = ''EMPTY'', getString = '''', getValue = 0,
                             CellBackColor = - 1\<rparr>),
      reference_row_index = 0, reference_column_index = 0\<rparr>"

definition inhabited_at :: "int set \<Rightarrow> int \<Rightarrow> pyval" where
  "inhabited_at js j = (if j \<in> js then PStr ''v'' else PNone)"

text \<open>
  An xlwings sheet whose only inhabited cells are in the first column: row \<open>j\<close>
  (0-based) of that column holds \<open>contents j\<close>. The names \<open>a\<close> and \<open>b\<close> at the
  indices 0 and 1.
\<close>

definition xw_column_sheet :: "(int \<Rightarrow> pyval) \<Rightarrow> Sheet" where
  "xw_column_sheet contents =
     \<lparr>i7e_sheet = XW (\<lambda>p. \<lparr>range_value = (if snd p = 1 then contents (fst p - 1) else PNone),
                            range_color = None\<rparr>),
      reference_row_index = 0, reference_column_index = 0\<rparr>"

definition names_ab :: "int \<Rightarrow> pyval" where
  "names_ab j = (if j = 0 then PStr ''a'' else if j = 1 then PStr ''b'' else PNone)"

text \<open>
  The names \<open>a\<close> and \<open>b\<close> at the indices 0 and 1, ten empty cells, and the name
  \<open>zz\<close> at index 12.
\<close>

definition names_far :: "int \<Rightarrow> pyval" where
  "names_far j =
     (if j = 0 then PStr ''a'' else if j = 1 then PStr ''b''
      else if j = 12 then PStr ''zz'' else PNone)"

text \<open>
  The row of the first example sheet with the cells 0, 1 and 2 inhabited, on a sheet
  whose reference column is column 1: the header cell of the row is its cell 1.
\<close>

definition xw_header_sheet :: Sheet where
  "xw_header_sheet = (xw_row_sheet (inhabited_at {0, 1, 2}))\<lparr>reference_column_index := 1\<rparr>"

section \<open>What clearing a line leaves behind\<close>

text \<open>
  The result of \<^verbatim>\<open>Line.clear\<close> as the amended claim C8 words it, for an xlwings sheet and
  a line whose iteration returns \<open>n\<close> cells: the cell \<open>j\<close> of the line, \<open>0 \<le> j < n\<close>,
  has lost its value and its color when \<open>j\<close> is past \<^verbatim>\<open>name_cell_index\<close> or
  \<^verbatim>\<open>include_header\<close> is true; every other range of the host is as it was.
  \<open>xw_line_index_of\<close> finds the index of the line's cell that a host range
  (row, column), 1-based, keeps.
\<close>

definition xw_line_index_of :: "Line \<Rightarrow> int \<times> int \<Rightarrow> int option" where
  "xw_line_index_of line q =
     (if line_cls line = Column
      then (if snd q = line_index line + 1 then Some (fst q - 1) else None)
      else (if fst q = line_index line + 1 then Some (snd q - 1) else None))"

definition cleared_range :: "xw_range \<Rightarrow> xw_range" where
  "cleared_range r = r\<lparr>range_value := PNone, range_color := None\<rparr>"

definition cleared_host :: "(int \<times> int \<Rightarrow> xw_range) \<Rightarrow> Line \<Rightarrow> int \<Rightarrow> bool \<Rightarrow> int \<Rightarrow> int \<times> int \<Rightarrow> xw_range" where
  "cleared_host f line header include_header n q =
     (case xw_line_index_of line q of
        None \<Rightarrow> f q
      | Some j \<Rightarrow>
          if 0 \<le> j \<and> j < n \<and> (header < j \<or> include_header) then cleared_range (f q)
          else f q)"

definition spec_cleared :: "Sheet \<Rightarrow> Line \<Rightarrow> bool \<Rightarrow> int \<Rightarrow> Sheet" where
  "spec_cleared sheet line include_header n =
     (case i7e_sheet sheet of
        XW f \<Rightarrow>
          sheet\<lparr>i7e_sheet :=
            XW (cleared_host f line (name_cell_index sheet line) include_header n)\<rparr>
      | Uno g \<Rightarrow> sheet)"

section \<open>Calls with integer identifiers\<close>

text \<open>
  The calls with integer identifiers that the definitions above resolve directly are
  the general methods at those arguments.
\<close>

lemma get_row_int:
  "get_row sheet (PInt n) =
     (case get_row_by_index sheet (PInt n) of Inl e \<Rightarrow> Some (Inl e) | Inr line \<Rightarrow> Some (Inr (Some line)))"
  by (simp add: get_row_def)

lemma get_column_int:
  "get_column sheet (PInt n) =
     (case get_column_by_index sheet (PInt n) of Inl e \<Rightarrow> Some (Inl e) | Inr line \<Rightarrow> Some (Inr (Some line)))"
  by (simp add: get_column_def)

lemma get_cell_ints:
  "get_cell sheet (PInt x, PInt y) None None =
     (case get_cell_xy sheet (x, y) of Inl e \<Rightarrow> Some (Inl e) | Inr cell \<Rightarrow> Some (Inr (Some cell)))"
  by (simp add: get_cell_def get_cell_xy_def hint_ok_def split: sum.splits)

section \<open>Facts about Color\<close>

lemma and_255: "(x::int) AND 255 = x mod 256"
  using take_bit_eq_mask [of 8 x] by (simp add: take_bit_eq_mod mask_eq_exp_minus_1)

lemma pack_mod:
  fixes q b :: int
  assumes "0 \<le> b" "b < 256"
  shows "(q * 256 + b) mod 256 = b" "(q * 256 + b) div 256 = q"
  using assms by simp_all

lemma rgb_packed:
  assumes "0 \<le> r" "r \<le> 255" "0 \<le> g" "g \<le> 255" "0 \<le> b" "b \<le> 255"
  shows "rgb \<lparr>color = r * 65536 + g * 256 + b\<rparr> = (r, g, b)"
proof -
  let ?c = "r * 65536 + g * 256 + b"
  have e: "?c = (r * 256 + g) * 256 + b" by simp
  have b: "?c mod 256 = b"
    unfolding e using assms by (intro pack_mod) simp_all
  have d8: "?c div 256 = r * 256 + g"
    unfolding e using assms by (intro pack_mod) simp_all
  have g: "(r * 256 + g) mod 256 = g"
    using assms by (intro pack_mod) simp_all
  have "?c div 65536 = ?c div 256 div 256"
    by (simp add: div_mult2_eq [symmetric])
  also have "\<dots> = (r * 256 + g) div 256" by (simp only: d8)
  also have "\<dots> = r" using assms by (intro pack_mod) simp_all
  finally have d16: "?c div 65536 = r" .
  have r: "r mod 256 = r" using assms by simp
  have g': "g mod 256 = g" using assms by simp
  show ?thesis
    by (simp add: rgb_def and_255 drop_bit_eq_div b d8 g g' d16 r)
qed

text \<open>
  C9. Color round-trip: for all integers \<open>r\<close>, \<open>g\<close>, \<open>b\<close> in 0..255 the constructor
  accepts the tuple \<open>(r, g, b)\<close>, the packed integer it stores is
  \<open>r * 65536 + g * 256 + b\<close> and \<^verbatim>\<open>.rgb\<close> of the object is \<open>(r, g, b)\<close> again; for
  \<open>(255, 0, 128)\<close> the packed integer is 16711808.
\<close>

theorem C9_color_round_trip:
  assumes "0 \<le> r" "r \<le> 255" "0 \<le> g" "g \<le> 255" "0 \<le> b" "b \<le> 255"
  shows "Color_init (ColorTuple [PInt r, PInt g, PInt b]) = Inr \<lparr>color = r * 65536 + g * 256 + b\<rparr>
       \<and> rgb \<lparr>color = r * 65536 + g * 256 + b\<rparr> = (r, g, b)
       \<and> Color_init (ColorTuple [PInt 255, PInt 0, PInt 128]) = Inr \<lparr>color = 16711808\<rparr>
       \<and> rgb \<lparr>color = 16711808\<rparr> = (255, 0, 128)"
proof -
  have c: "Color_init (ColorTuple [PInt r, PInt g, PInt b]) = Inr \<lparr>color = r * 65536 + g * 256 + b\<rparr>"
    using assms by (simp add: push_bit_eq_mult)
  have k: "Color_init (ColorTuple [PInt 255, PInt 0, PInt 128]) = Inr \<lparr>color = 16711808\<rparr>"
    by (simp add: push_bit_eq_mult)
  have "rgb \<lparr>color = 255 * 65536 + 0 * 256 + 128\<rparr> = (255, 0, 128)"
    by (rule rgb_packed) simp_all
  then have q: "rgb \<lparr>color = 16711808\<rparr> = (255, 0, 128)" by simp
  from c rgb_packed [OF assms] k q show ?thesis by simp
qed

theorem C9_color_round_trip_witness:
  "(0::int) \<le> 12 \<and> (12::int) \<le> 255
   \<and> Color_init (ColorTuple [PInt 12, PInt 200, PInt 7]) = Inr \<lparr>color = 12 * 65536 + 200 * 256 + 7\<rparr>
   \<and> rgb \<lparr>color = 12 * 65536 + 200 * 256 + 7\<rparr> = (12, 200, 7)"
  using C9_color_round_trip [of 12 200 7] by simp

section \<open>The iterator, step by step\<close>

lemma py_range_gap: "py_range 1 MAX_CELL_GAP = [1, 2, 3, 4, 5, 6, 7, 8, 9]"
  by (simp add: MAX_CELL_GAP_def py_range.simps)

lemma get_cell_xy_ok:
  "0 \<le> fst p \<Longrightarrow> 0 \<le> snd p \<Longrightarrow> get_cell_xy sheet p = Inr (Cell p)"
  by (cases "i7e_sheet sheet")
     (simp_all add: get_cell_xy_def get_column_by_index_def get_cell_by_index_def)

lemma get_cell_xy_line:
  "0 \<le> index \<Longrightarrow> 0 \<le> j \<Longrightarrow> get_cell_xy sheet (line_position ax index j) = Inr (line_cell ax index j)"
  unfolding line_cell_def by (rule get_cell_xy_ok) (simp_all add: line_position_def)

lemma Cell_string_ok:
  "0 \<le> fst p \<Longrightarrow> 0 \<le> snd p \<Longrightarrow> \<exists>s. Cell_string sheet (Cell p) = Inr s"
  by (cases "i7e_sheet sheet")
     (auto simp add: Cell_string_def xw_range_of_def uno_source_cell_def cell_x_def cell_y_def Let_def
           split: pyval.splits)

lemma line_cell_string:
  assumes "0 \<le> index" "0 \<le> j"
  shows "\<exists>s. Cell_string sheet (line_cell ax index j) = Inr s"
  unfolding line_cell_def using assms
  by (intro Cell_string_ok) (simp_all add: line_position_def)

lemma not_empty_string:
  assumes "0 \<le> index" "0 \<le> j" "\<not> cell_is_empty sheet (line_cell ax index j)"
  shows "\<exists>s. Cell_string sheet (line_cell ax index j) = Inr s \<and> s \<noteq> ''''"
  using line_cell_string [OF assms(1,2), of sheet ax] assms(3)
  by (auto simp add: cell_is_empty_def)

text \<open>One call of \<^verbatim>\<open>__next__\<close>, by the state of the line around the cursor.\<close>

lemma next_inhabited:
  assumes "0 \<le> cl_index it" "0 \<le> cl_i it"
    and "\<not> cell_is_empty sheet (line_cell (cl_axis it) (cl_index it) (cl_i it))"
  shows "CellLine_next sheet it =
           Inr (Some (line_cell (cl_axis it) (cl_index it) (cl_i it), it\<lparr>cl_i := cl_i it + 1\<rparr>))"
  using not_empty_string [OF assms]
  by (auto simp add: CellLine_next_def get_cell_xy_line assms(1,2))

lemma next_vouched:
  assumes "0 \<le> cl_index it" "0 \<le> cl_i it" "cl_i it \<le> highest_inhabited_i it"
  shows "CellLine_next sheet it =
           Inr (Some (line_cell (cl_axis it) (cl_index it) (cl_i it), it\<lparr>cl_i := cl_i it + 1\<rparr>))"
  using line_cell_string [OF assms(1,2), of sheet "cl_axis it"] assms(3)
  by (auto simp add: CellLine_next_def get_cell_xy_line assms(1,2))

lemma probe_empty:
  assumes "0 \<le> cl_index it" "0 \<le> cl_i it"
    and "\<forall>k\<in>set ks. 0 \<le> k \<and> cell_is_empty sheet (line_cell (cl_axis it) (cl_index it) (cl_i it + k))"
  shows "probe sheet it ks = Inr None"
  using assms(3)
  by (induction ks) (simp_all add: get_cell_xy_line assms(1,2) cell_is_empty_def)

lemma probe_found:
  assumes "0 \<le> cl_index it" "0 \<le> cl_i it" "0 \<le> k"
    and "\<forall>j\<in>set js. 0 \<le> j \<and> cell_is_empty sheet (line_cell (cl_axis it) (cl_index it) (cl_i it + j))"
    and "\<not> cell_is_empty sheet (line_cell (cl_axis it) (cl_index it) (cl_i it + k))"
  shows "probe sheet it (js @ k # ks) = Inr (Some (cl_i it + k))"
  using assms(4)
proof (induction js)
  case Nil
  from not_empty_string [OF assms(1) _ assms(5)] assms(2,3)
  show ?case by (auto simp add: get_cell_xy_line assms(1,2,3))
next
  case (Cons j js)
  then show ?case by (simp add: get_cell_xy_line assms(1,2) cell_is_empty_def)
qed

lemma next_stop:
  assumes "0 \<le> cl_index it" "0 \<le> cl_i it" "highest_inhabited_i it < cl_i it"
    and "\<forall>k\<in>{0..9}. cell_is_empty sheet (line_cell (cl_axis it) (cl_index it) (cl_i it + k))"
  shows "CellLine_next sheet it = Inr None"
proof -
  have "probe sheet it (py_range 1 MAX_CELL_GAP) = Inr None"
    unfolding py_range_gap using assms(4) by (intro probe_empty assms(1,2)) auto
  moreover have "Cell_string sheet (line_cell (cl_axis it) (cl_index it) (cl_i it)) = Inr ''''"
    using bspec [OF assms(4), of 0] by (simp add: cell_is_empty_def)
  ultimately show ?thesis
    using assms(3) by (simp add: CellLine_next_def get_cell_xy_line assms(1,2))
qed

lemma set_py_range: "set (py_range a b) = {a..<b}"
proof (induction a b rule: py_range.induct)
  case (1 a b)
  show ?case
  proof (cases "a < b")
    case True
    with 1 show ?thesis by (subst py_range.simps) auto
  next
    case False
    then show ?thesis by (subst py_range.simps) simp
  qed
qed

lemma py_range_split: "a \<le> k \<Longrightarrow> k < b \<Longrightarrow> py_range a b = py_range a k @ k # py_range (k + 1) b"
proof (induction a b rule: py_range.induct)
  case (1 a b)
  show ?case
  proof (cases "a = k")
    case True
    with 1 show ?thesis
      by (subst py_range.simps, subst (2) py_range.simps) simp
  next
    case False
    with 1 have "a < k" "a < b" by simp_all
    with 1 False show ?thesis
      by (subst py_range.simps, subst (2) py_range.simps) simp
  qed
qed

lemma next_gap:
  assumes "0 \<le> cl_index it" "0 \<le> cl_i it" "highest_inhabited_i it < cl_i it"
    and "1 \<le> k" "k \<le> 9"
    and "\<forall>j\<in>{0..<k}. cell_is_empty sheet (line_cell (cl_axis it) (cl_index it) (cl_i it + j))"
    and "\<not> cell_is_empty sheet (line_cell (cl_axis it) (cl_index it) (cl_i it + k))"
  shows "CellLine_next sheet it =
           Inr (Some (line_cell (cl_axis it) (cl_index it) (cl_i it),
                      it\<lparr>highest_inhabited_i := cl_i it + k, cl_i := cl_i it + 1\<rparr>))"
proof -
  have sp: "py_range 1 MAX_CELL_GAP = py_range 1 k @ k # py_range (k + 1) MAX_CELL_GAP"
    using assms(4,5) by (intro py_range_split) (simp_all add: MAX_CELL_GAP_def)
  have "probe sheet it (py_range 1 MAX_CELL_GAP) = Inr (Some (cl_i it + k))"
    unfolding sp using assms(4,6,7)
    by (intro probe_found assms(1,2)) (auto simp add: set_py_range)
  moreover have "Cell_string sheet (line_cell (cl_axis it) (cl_index it) (cl_i it)) = Inr ''''"
    using bspec [OF assms(6), of 0] assms(4) by (simp add: cell_is_empty_def)
  ultimately show ?thesis
    using assms(3) by (simp add: CellLine_next_def get_cell_xy_line assms(1,2))
qed

lemma cells_step:
  "CellLine_next sheet it = Inr (Some (c, it')) \<Longrightarrow>
   CellLine_cells sheet it acc = CellLine_cells sheet it' (acc @ [c])"
  by (subst CellLine_cells.simps) simp

lemma cells_stop:
  "CellLine_next sheet it = Inr None \<Longrightarrow> CellLine_cells sheet it acc = Some (Inr acc)"
  by (subst CellLine_cells.simps) simp

lemma cells_inhabited:
  assumes "0 \<le> index" "0 \<le> i" "\<not> cell_is_empty sheet (line_cell ax index i)"
  shows "CellLine_cells sheet \<lparr>cl_axis = ax, cl_index = index, cl_i = i, highest_inhabited_i = h\<rparr> acc =
         CellLine_cells sheet \<lparr>cl_axis = ax, cl_index = index, cl_i = i + 1, highest_inhabited_i = h\<rparr>
           (acc @ [line_cell ax index i])"
  using next_inhabited [of "\<lparr>cl_axis = ax, cl_index = index, cl_i = i, highest_inhabited_i = h\<rparr>" sheet] assms
  by (intro cells_step) simp

lemma cells_vouched:
  assumes "0 \<le> index" "0 \<le> i" "i \<le> h"
  shows "CellLine_cells sheet \<lparr>cl_axis = ax, cl_index = index, cl_i = i, highest_inhabited_i = h\<rparr> acc =
         CellLine_cells sheet \<lparr>cl_axis = ax, cl_index = index, cl_i = i + 1, highest_inhabited_i = h\<rparr>
           (acc @ [line_cell ax index i])"
  using next_vouched [of "\<lparr>cl_axis = ax, cl_index = index, cl_i = i, highest_inhabited_i = h\<rparr>" sheet] assms
  by (intro cells_step) simp

lemma cells_gap:
  assumes "0 \<le> index" "0 \<le> i" "h < i" "1 \<le> k" "k \<le> 9"
    and "\<forall>j\<in>{0..<k}. cell_is_empty sheet (line_cell ax index (i + j))"
    and "\<not> cell_is_empty sheet (line_cell ax index (i + k))"
  shows "CellLine_cells sheet \<lparr>cl_axis = ax, cl_index = index, cl_i = i, highest_inhabited_i = h\<rparr> acc =
         CellLine_cells sheet \<lparr>cl_axis = ax, cl_index = index, cl_i = i + 1, highest_inhabited_i = i + k\<rparr>
           (acc @ [line_cell ax index i])"
  using next_gap [of "\<lparr>cl_axis = ax, cl_index = index, cl_i = i, highest_inhabited_i = h\<rparr>" k sheet] assms
  by (intro cells_step) simp

lemma cells_end:
  assumes "0 \<le> index" "0 \<le> i" "h < i"
    and "\<forall>k\<in>{0..9}. cell_is_empty sheet (line_cell ax index (i + k))"
  shows "CellLine_cells sheet \<lparr>cl_axis = ax, cl_index = index, cl_i = i, highest_inhabited_i = h\<rparr> acc =
         Some (Inr acc)"
  using next_stop [of "\<lparr>cl_axis = ax, cl_index = index, cl_i = i, highest_inhabited_i = h\<rparr>" sheet] assms
  by (intro cells_stop) simp

text \<open>
  C1. Gap-tolerant iteration of a CellLine along either axis of a line with a
  non-negative index, under both backends. When the cells 0, 1, 2 and 12 of the line are
  non-empty, the cells 3..11 are empty and the line holds nothing after index 12 (the
  ten cells 13..22 are empty, which ends the iteration), the iteration returns exactly
  the cells 0..12 in order, the empty cells 3..11 among them. When the cells 0, 1, 2 are
  non-empty and the ten cells 3..12 are empty, the iteration returns the cells 0, 1, 2
  and ends without returning the empty cell 3, whatever the line holds from index 13 on.
\<close>

theorem C1_gap_tolerant_iteration:
  assumes "0 \<le> index"
  shows "((\<forall>j\<in>{0, 1, 2, 12}. \<not> cell_is_empty sheet (line_cell ax index j))
          \<and> (\<forall>j\<in>{3..11} \<union> {13..22}. cell_is_empty sheet (line_cell ax index j))
         \<longrightarrow> CellLine_cells sheet (CellLine_init ax index) [] =
               Some (Inr (map (line_cell ax index) [0, 1, 2, 3, 4, 5, 6, 7, 8, 9, 10, 11, 12])))
       \<and> ((\<forall>j\<in>{0, 1, 2}. \<not> cell_is_empty sheet (line_cell ax index j))
          \<and> (\<forall>j\<in>{3..12}. cell_is_empty sheet (line_cell ax index j))
         \<longrightarrow> CellLine_cells sheet (CellLine_init ax index) [] =
               Some (Inr (map (line_cell ax index) [0, 1, 2])))"
proof (intro conjI impI)
  assume a: "(\<forall>j\<in>{0, 1, 2, 12}. \<not> cell_is_empty sheet (line_cell ax index j))
          \<and> (\<forall>j\<in>{3..11} \<union> {13..22}. cell_is_empty sheet (line_cell ax index j))"
  have gap: "\<forall>j\<in>{0..<9}. cell_is_empty sheet (line_cell ax index (3 + j))"
    using a by auto
  have tail: "\<forall>k\<in>{0..9}. cell_is_empty sheet (line_cell ax index (13 + k))"
    using a by auto
  have n12: "\<not> cell_is_empty sheet (line_cell ax index (3 + 9))"
    using a by simp
  have "CellLine_cells sheet (CellLine_init ax index) [] =
        CellLine_cells sheet \<lparr>cl_axis = ax, cl_index = index, cl_i = 3, highest_inhabited_i = - 1\<rparr>
          (map (line_cell ax index) [0, 1, 2])"
    using a assms by (simp add: CellLine_init_def cells_inhabited)
  also have "\<dots> = CellLine_cells sheet \<lparr>cl_axis = ax, cl_index = index, cl_i = 4, highest_inhabited_i = 12\<rparr>
          (map (line_cell ax index) [0, 1, 2, 3])"
    using cells_gap [OF assms _ _ _ _ gap n12, of "- 1" "map (line_cell ax index) [0, 1, 2]"] by simp
  also have "\<dots> = CellLine_cells sheet \<lparr>cl_axis = ax, cl_index = index, cl_i = 13, highest_inhabited_i = 12\<rparr>
          (map (line_cell ax index) [0, 1, 2, 3, 4, 5, 6, 7, 8, 9, 10, 11, 12])"
    using assms by (simp add: cells_vouched)
  also have "\<dots> = Some (Inr (map (line_cell ax index) [0, 1, 2, 3, 4, 5, 6, 7, 8, 9, 10, 11, 12]))"
    using assms tail by (intro cells_end) simp_all
  finally show "CellLine_cells sheet (CellLine_init ax index) [] =
        Some (Inr (map (line_cell ax index) [0, 1, 2, 3, 4, 5, 6, 7, 8, 9, 10, 11, 12]))" .
next
  assume b: "(\<forall>j\<in>{0, 1, 2}. \<not> cell_is_empty sheet (line_cell ax index j))
          \<and> (\<forall>j\<in>{3..12}. cell_is_empty sheet (line_cell ax index j))"
  have run: "\<forall>k\<in>{0..9}. cell_is_empty sheet (line_cell ax index (3 + k))"
    using b by auto
  have "CellLine_cells sheet (CellLine_init ax index) [] =
        CellLine_cells sheet \<lparr>cl_axis = ax, cl_index = index, cl_i = 3, highest_inhabited_i = - 1\<rparr>
          (map (line_cell ax index) [0, 1, 2])"
    using b assms by (simp add: CellLine_init_def cells_inhabited)
  also have "\<dots> = Some (Inr (map (line_cell ax index) [0, 1, 2]))"
    using assms run by (intro cells_end) simp_all
  finally show "CellLine_cells sheet (CellLine_init ax index) [] =
        Some (Inr (map (line_cell ax index) [0, 1, 2]))" .
qed

lemma row_sheet_empty:
  "0 \<le> j \<Longrightarrow> cell_is_empty (xw_row_sheet (inhabited_at S)) (line_cell AxisX 0 j) = (j \<notin> S)"
  by (simp add: cell_is_empty_def Cell_string_def xw_row_sheet_def xw_range_of_def
        line_cell_def line_position_def cell_x_def cell_y_def inhabited_at_def)

theorem C1_gap_tolerant_iteration_witness:
  "CellLine_cells (xw_row_sheet (inhabited_at {0, 1, 2, 12})) (CellLine_init AxisX 0) [] =
     Some (Inr (map (line_cell AxisX 0) [0, 1, 2, 3, 4, 5, 6, 7, 8, 9, 10, 11, 12]))
   \<and> CellLine_cells (xw_row_sheet (inhabited_at {0, 1, 2, 13})) (CellLine_init AxisX 0) [] =
     Some (Inr (map (line_cell AxisX 0) [0, 1, 2]))"
proof -
  have a: "(\<forall>j\<in>{0, 1, 2, 12}. \<not> cell_is_empty (xw_row_sheet (inhabited_at {0, 1, 2, 12})) (line_cell AxisX 0 j))
          \<and> (\<forall>j\<in>{3..11} \<union> {13..22}. cell_is_empty (xw_row_sheet (inhabited_at {0, 1, 2, 12})) (line_cell AxisX 0 j))"
    by (auto simp add: row_sheet_empty)
  have b: "(\<forall>j\<in>{0, 1, 2}. \<not> cell_is_empty (xw_row_sheet (inhabited_at {0, 1, 2, 13})) (line_cell AxisX 0 j))
          \<and> (\<forall>j\<in>{3..12}. cell_is_empty (xw_row_sheet (inhabited_at {0, 1, 2, 13})) (line_cell AxisX 0 j))"
    by (auto simp add: row_sheet_empty)
  from a b
    C1_gap_tolerant_iteration [of 0 "xw_row_sheet (inhabited_at {0, 1, 2, 12})" AxisX]
    C1_gap_tolerant_iteration [of 0 "xw_row_sheet (inhabited_at {0, 1, 2, 13})" AxisX]
  show ?thesis by blast
qed

section \<open>Constructors, index guards and clearing a cell\<close>

text \<open>
  C3. The code stores \<open>index\<close>, not the argument \<open>reference_index\<close>: a Line built with
  index \<open>i\<close> and reference index \<open>r\<close> has \<^verbatim>\<open>reference_index == i\<close>, and the Row that
  \<^verbatim>\<open>get_row_by_index(3)\<close> returns on a sheet whose \<^verbatim>\<open>reference_row_index\<close> is 0 has
  \<^verbatim>\<open>reference_index == 3\<close>.
\<close>

theorem C3_reference_index_is_index:
  "Line_init cls (PInt i) (PInt r) = Inr \<lparr>line_cls = cls, line_index = i, reference_index = i\<rparr>
   \<and> reference_row_index (xw_row_sheet contents) = 0
   \<and> get_row_by_index (xw_row_sheet contents) (PInt 3) =
       Inr \<lparr>line_cls = Row, line_index = 3, reference_index = 3\<rparr>"
  by (simp add: get_row_by_index_def xw_row_sheet_def)

text \<open>
  C5. Under xlwings both calls with the index -1 raise ValueError, and so does
  \<^verbatim>\<open>get_column_by_index(-1)\<close> under PyUno; \<^verbatim>\<open>Office.Uno.Sheet.get_row_by_index(-1)\<close>
  has no test of the sign and returns a Row whose index is -1.
\<close>

theorem C5_uno_row_negative_index:
  "get_row_by_index uno_empty_sheet (PInt (- 1)) =
     Inr \<lparr>line_cls = Row, line_index = - 1, reference_index = - 1\<rparr>
   \<and> get_column_by_index uno_empty_sheet (PInt (- 1)) = Inl ValueError
   \<and> get_row_by_index (xw_row_sheet contents) (PInt (- 1)) = Inl ValueError
   \<and> get_column_by_index (xw_row_sheet contents) (PInt (- 1)) = Inl ValueError"
  by (simp add: get_row_by_index_def get_column_by_index_def uno_empty_sheet_def xw_row_sheet_def)

text \<open>
  C7. Under PyUno the setter of \<^verbatim>\<open>value\<close> asserts that the new value is a str, an int
  or a float, so \<^verbatim>\<open>clear()\<close>, which assigns None, raises AssertionError before anything
  is written.
\<close>

theorem C7_uno_clear_raises:
  "Cell_clear uno_empty_sheet (Cell (0, 0)) = Inl AssertionError"
  by (simp add: Cell_clear_def Cell_set_value_def uno_empty_sheet_def)

lemma xw_clear_ok:
  assumes "i7e_sheet sheet = XW f" "0 \<le> fst p" "0 \<le> snd p"
  shows "\<exists>sheet'. Cell_clear sheet (Cell p) = Inr sheet'
           \<and> Cell_value sheet' (Cell p) = Inr PNone
           \<and> Cell_get_color sheet' (Cell p) = Inr (ColorNum DEFAULT_COLOR)"
  using assms
  by (simp add: Cell_clear_def Cell_set_value_def Cell_set_color_def Cell_value_def
        Cell_get_color_def xw_range_of_def cell_x_def cell_y_def DEFAULT_COLOR_def Let_def)

section \<open>Lookups on example sheets\<close>

lemmas iter_defs = CellLine_next_def get_cell_xy_def get_column_by_index_def get_row_by_index_def
  get_cell_by_index_def line_position_def Cell_string_def Cell_value_def xw_range_of_def
  cell_x_def cell_y_def py_range_gap Line_iter_def get_iterator_def CellLine_init_def
  reference_row_def reference_column_def Cell_row_def Cell_column_def

lemma ab_first:
  "CellLine_next (xw_column_sheet names_ab) (CellLine_init AxisY 0) =
     Inr (Some (Cell (0, 0), \<lparr>cl_axis = AxisY, cl_index = 0, cl_i = 1, highest_inhabited_i = - 1\<rparr>))"
  by (simp add: iter_defs xw_column_sheet_def names_ab_def)

lemma ab_second:
  "CellLine_next (xw_column_sheet names_ab) \<lparr>cl_axis = AxisY, cl_index = 0, cl_i = 1, highest_inhabited_i = - 1\<rparr> =
     Inr (Some (Cell (0, 1), \<lparr>cl_axis = AxisY, cl_index = 0, cl_i = 2, highest_inhabited_i = - 1\<rparr>))"
  by (simp add: iter_defs xw_column_sheet_def names_ab_def)

lemma ab_values:
  "Cell_value (xw_column_sheet names_ab) (Cell (0, 0)) = Inr (PStr ''a'')"
  "Cell_value (xw_column_sheet names_ab) (Cell (0, 1)) = Inr (PStr ''b'')"
  by (simp_all add: iter_defs xw_column_sheet_def names_ab_def)

lemma ab_reference_column:
  "reference_column (xw_column_sheet names_ab) = Inr \<lparr>line_cls = Column, line_index = 0, reference_index = 0\<rparr>"
  by (simp add: iter_defs xw_column_sheet_def)

text \<open>
  C4. \<^verbatim>\<open>get_row_index_from_name\<close> reads \<^verbatim>\<open>.value\<close> of the elements of \<^verbatim>\<open>self.rows\<close>,
  which are Row objects: on the sheet whose reference column holds the names \<open>a\<close> and
  \<open>b\<close>, \<^verbatim>\<open>get_row('b')\<close> raises AttributeError at the first row instead of returning
  the row of index 1, and so does the lookup of a name that no row has.
\<close>

theorem C4_get_row_by_name_raises:
  "get_row (xw_column_sheet names_ab) (PStr ''b'') = Some (Inl AttributeError)
   \<and> get_row (xw_column_sheet names_ab) (PStr ''zz'') = Some (Inl AttributeError)"
proof -
  have "get_row_index_from_name (xw_column_sheet names_ab) name = Some (Inl AttributeError)" for name
    unfolding get_row_index_from_name_def Sheet_rows_def ab_reference_column LineSeries_iter_def
    apply (simp add: Line_iter_def xw_column_sheet_def get_iterator_def)
    apply (subst get_row_index_from_name_loop.simps)
    apply (simp add: LineSeries_next_def ab_first [unfolded xw_column_sheet_def] contents_type_def
        Cell_row_def get_row_by_index_def Line_value_def cell_y_def)
    done
  then show ?thesis
    by (simp add: get_row_def get_row_by_name_def)
qed

lemma ab_column0:
  "get_column_by_index (xw_column_sheet names_ab) (PInt 0) =
     Inr \<lparr>line_cls = Column, line_index = 0, reference_index = 0\<rparr>"
  by (simp add: iter_defs xw_column_sheet_def)

lemma ab_find_b:
  "enumerate_find (xw_column_sheet names_ab) (CellLine_init AxisY 0) 0 (PStr ''b'') = Some (Inr (Some 1))"
  by (subst enumerate_find.simps, simp add: ab_first ab_values,
      subst enumerate_find.simps, simp add: ab_second ab_values)

lemma ab_by_reference:
  "get_cell_by_reference (xw_column_sheet names_ab)
     \<lparr>line_cls = Column, line_index = 0, reference_index = 0\<rparr> (PStr ''b'') =
   Some (Inr (Some (Cell (0, 1))))"
proof -
  have it: "Line_iter (xw_column_sheet names_ab) \<lparr>line_cls = Column, line_index = 0, reference_index = 0\<rparr>
              = Inr (CellLine_init AxisY 0)"
    by (simp add: Line_iter_def get_iterator_def xw_column_sheet_def)
  have c: "get_cell_by_index (xw_column_sheet names_ab)
             \<lparr>line_cls = Column, line_index = 0, reference_index = 0\<rparr> (PInt 1) = Inr (Cell (0, 1))"
    by (simp add: get_cell_by_index_def xw_column_sheet_def)
  show ?thesis
    by (simp add: get_cell_by_reference_def Line_reference_line_def ab_reference_column it ab_find_b c)
qed

text \<open>
  C6. The test that chooses how \<open>y\<close> is resolved reads \<^verbatim>\<open>x_identifier_type\<close> where the
  claim has \<^verbatim>\<open>y_identifier_type\<close>. On the sheet whose reference column holds the names
  \<open>a\<close> and \<open>b\<close>: with no hint \<^verbatim>\<open>get_cell((0, 'b'))\<close> finds the cell (0, 1) by name;
  with \<^verbatim>\<open>x_identifier_type='index'\<close> and no hint for y the same string \<open>b\<close> is taken
  for an index (TypeError); with \<^verbatim>\<open>y_identifier_type='index'\<close> and no hint for x it is
  still resolved by name.
\<close>

theorem C6_y_resolution_reads_x_hint:
  "get_cell (xw_column_sheet names_ab) (PInt 0, PStr ''b'') None None = Some (Inr (Some (Cell (0, 1))))
   \<and> get_cell (xw_column_sheet names_ab) (PInt 0, PStr ''b'') (Some ''index'') None = Some (Inl TypeError)
   \<and> get_cell (xw_column_sheet names_ab) (PInt 0, PStr ''b'') None (Some ''index'') =
       Some (Inr (Some (Cell (0, 1))))"
proof -
  have t: "get_cell_by_index (xw_column_sheet names_ab)
             \<lparr>line_cls = Column, line_index = 0, reference_index = 0\<rparr> (PStr ''b'') = Inl TypeError"
    by (simp add: get_cell_by_index_def)
  show ?thesis
    by (simp add: get_cell_def hint_ok_def ab_column0 ab_by_reference t)
qed

section \<open>The length of a series\<close>

lemma len_loop_diverges:
  assumes "LineSeries_iter sheet series = Inr gen"
    and "LineSeries_next sheet series gen = Inr (Some (line, gen'))"
    and "Line_bool sheet line = Some (Inr True)"
  shows "LineSeries_len_loop sheet series count = None"
proof (rule ccontr)
  assume "LineSeries_len_loop sheet series count \<noteq> None"
  then obtain r where r: "LineSeries_len_loop sheet series count = Some r" by auto
  have "s = sheet \<and> sr = series \<longrightarrow> False"
    if "LineSeries_len_loop s sr c = Some y" for s sr c y
    using that
    apply (rule LineSeries_len_loop.raw_induct [rotated, where P = "\<lambda>s sr c y. s = sheet \<and> sr = series \<longrightarrow> False"])
    subgoal premises prems for loop s' sr' c' y'
      using prems(2) prems(1) [of sheet series "c' + 1" y'] assms by auto
    done
  with r show False by blast
qed

lemma v0_row: "reference_row (xw_row_sheet (inhabited_at {0})) =
    Inr \<lparr>line_cls = Row, line_index = 0, reference_index = 0\<rparr>"
  by (simp add: iter_defs xw_row_sheet_def)

lemma v0_first:
  "CellLine_next (xw_row_sheet (inhabited_at {0})) (CellLine_init ax 0) =
     Inr (Some (Cell (0, 0), \<lparr>cl_axis = ax, cl_index = 0, cl_i = 1, highest_inhabited_i = - 1\<rparr>))"
  by (simp add: iter_defs xw_row_sheet_def inhabited_at_def)

lemma v0_stop:
  "CellLine_next (xw_row_sheet (inhabited_at {0})) \<lparr>cl_axis = ax, cl_index = 0, cl_i = 1, highest_inhabited_i = - 1\<rparr> =
     Inr None"
  by (simp add: iter_defs xw_row_sheet_def inhabited_at_def)

lemma v0_column_len:
  "Line_len (xw_row_sheet (inhabited_at {0})) \<lparr>line_cls = Column, line_index = 0, reference_index = 0\<rparr> =
     Some (Inr 1)"
proof -
  have "Line_len_loop (xw_row_sheet (inhabited_at {0})) (CellLine_init AxisY 0) 0 = Some (Inr 1)"
    by (subst Line_len_loop.simps, simp add: v0_first, subst Line_len_loop.simps, simp add: v0_stop)
  then show ?thesis
    by (simp add: Line_len_def Line_iter_def get_iterator_def xw_row_sheet_def)
qed

text \<open>
  C2. On the sheet whose only inhabited cell is (0, 0), the series of columns has one
  line: a traversal of the series counts 1. \<^verbatim>\<open>LineSeries.__len__\<close> builds a new
  generator at every test of its loop, sees the first column again each time (a column
  of length 1, hence true) and never leaves the loop.
\<close>

theorem C2_len_never_returns:
  "Sheet_columns (xw_row_sheet (inhabited_at {0})) =
     Inr \<lparr>reference_line = \<lparr>line_cls = Row, line_index = 0, reference_index = 0\<rparr>\<rparr>
   \<and> LineSeries_count (xw_row_sheet (inhabited_at {0}))
       \<lparr>reference_line = \<lparr>line_cls = Row, line_index = 0, reference_index = 0\<rparr>\<rparr>
       (CellLine_init AxisX 0) 0 = Some (Inr 1)
   \<and> LineSeries_len (xw_row_sheet (inhabited_at {0}))
       \<lparr>reference_line = \<lparr>line_cls = Row, line_index = 0, reference_index = 0\<rparr>\<rparr> = None"
proof -
  let ?s = "xw_row_sheet (inhabited_at {0})"
  let ?sr = "\<lparr>reference_line = \<lparr>line_cls = Row, line_index = 0, reference_index = 0\<rparr>\<rparr>"
  let ?col = "\<lparr>line_cls = Column, line_index = 0, reference_index = 0\<rparr>"
  have col: "Cell_column ?s (Cell (0, 0)) = Inr ?col"
    by (simp add: iter_defs xw_row_sheet_def)
  have it: "LineSeries_iter ?s ?sr = Inr (CellLine_init AxisX 0)"
    by (simp add: LineSeries_iter_def Line_iter_def get_iterator_def xw_row_sheet_def)
  have n1: "LineSeries_next ?s ?sr (CellLine_init AxisX 0) =
      Inr (Some (?col, \<lparr>cl_axis = AxisX, cl_index = 0, cl_i = 1, highest_inhabited_i = - 1\<rparr>))"
    by (simp add: LineSeries_next_def v0_first contents_type_def col)
  have n2: "LineSeries_next ?s ?sr \<lparr>cl_axis = AxisX, cl_index = 0, cl_i = 1, highest_inhabited_i = - 1\<rparr> = Inr None"
    by (simp add: LineSeries_next_def v0_stop)
  have truth: "Line_bool ?s ?col = Some (Inr True)"
    by (simp add: Line_bool_def v0_column_len)
  have c: "LineSeries_count ?s ?sr (CellLine_init AxisX 0) 0 = Some (Inr 1)"
    by (subst LineSeries_count.simps, simp add: n1, subst LineSeries_count.simps, simp add: n2)
  have d: "LineSeries_len ?s ?sr = None"
    unfolding LineSeries_len_def by (rule len_loop_diverges [OF it n1 truth])
  have sc: "Sheet_columns ?s = Inr ?sr"
    by (simp add: Sheet_columns_def v0_row)
  from sc c d show ?thesis by simp
qed

section \<open>Name lookup and the gap-tolerant prefix\<close>

lemma Cell_value_ok:
  "0 \<le> fst p \<Longrightarrow> 0 \<le> snd p \<Longrightarrow> \<exists>v. Cell_value sheet (Cell p) = Inr v"
  by (cases "i7e_sheet sheet")
     (auto simp add: Cell_value_def xw_range_of_def uno_source_cell_def cell_x_def cell_y_def Let_def)

lemma line_cell_value:
  assumes "0 \<le> index" "0 \<le> j"
  shows "\<exists>v. Cell_value sheet (line_cell ax index j) = Inr v"
  unfolding line_cell_def using assms
  by (intro Cell_value_ok) (simp_all add: line_position_def)

lemma Line_iter_init:
  "Line_iter sheet line = Inr it \<Longrightarrow> it = CellLine_init (Line_axis line) (line_index line)"
  by (cases "i7e_sheet sheet")
     (auto simp add: Line_iter_def get_iterator_def Line_axis_def split: if_splits)

text \<open>
  A run of ten empty cells from position \<open>p\<close> on: an iterator that has not passed
  \<open>p\<close> and has vouched for nothing from \<open>p\<close> on either ends or moves one cell
  forward, still vouching for nothing from \<open>p\<close> on.
\<close>

lemma next_before_run:
  assumes idx: "0 \<le> cl_index it" and i0: "0 \<le> cl_i it" and ip: "cl_i it \<le> p"
    and hp: "highest_inhabited_i it < p"
    and run: "\<forall>k\<in>{p..<p + MAX_CELL_GAP}. cell_is_empty sheet (line_cell (cl_axis it) (cl_index it) k)"
  shows "CellLine_next sheet it = Inr None
       \<or> (\<exists>h. CellLine_next sheet it =
                Inr (Some (line_cell (cl_axis it) (cl_index it) (cl_i it),
                           it\<lparr>highest_inhabited_i := h, cl_i := cl_i it + 1\<rparr>))
              \<and> h < p \<and> cl_i it < p)"
proof -
  let ?e = "\<lambda>j. cell_is_empty sheet (line_cell (cl_axis it) (cl_index it) j)"
  have run': "?e k" if "p \<le> k" "k \<le> p + 9" for k
    using run that by (simp add: MAX_CELL_GAP_def)
  have same: "it\<lparr>highest_inhabited_i := highest_inhabited_i it, cl_i := cl_i it + 1\<rparr> = it\<lparr>cl_i := cl_i it + 1\<rparr>"
    by simp
  consider (inh) "\<not> ?e (cl_i it)"
    | (vouched) "?e (cl_i it)" "cl_i it \<le> highest_inhabited_i it"
    | (stop) "?e (cl_i it)" "highest_inhabited_i it < cl_i it" "\<forall>k\<in>{1..9}. ?e (cl_i it + k)"
    | (gap) "?e (cl_i it)" "highest_inhabited_i it < cl_i it" "\<exists>k\<in>{1..9}. \<not> ?e (cl_i it + k)"
    by fastforce
  then show ?thesis
  proof cases
    case inh
    then have "cl_i it < p" using run' [of "cl_i it"] ip by force
    with next_inhabited [OF idx i0 inh] hp same show ?thesis by metis
  next
    case vouched
    then have "cl_i it < p" using hp by simp
    with next_vouched [OF idx i0 vouched(2)] hp same show ?thesis by metis
  next
    case stop
    have "\<forall>k\<in>{0..9}. ?e (cl_i it + k)"
    proof
      fix k :: int assume "k \<in> {0..9}"
      then have "k = 0 \<or> k \<in> {1..9}" by auto
      with stop(1,3) show "?e (cl_i it + k)" by auto
    qed
    from next_stop [OF idx i0 stop(2) this] show ?thesis by simp
  next
    case gap
    define K where "K = {k \<in> {1..9}. \<not> ?e (cl_i it + k)}"
    have "K \<subseteq> {1..9}" by (auto simp add: K_def)
    then have fin: "finite K" by (rule finite_subset) simp
    have ne: "K \<noteq> {}" using gap(3) by (auto simp add: K_def)
    define k where "k = Min K"
    have kK: "k \<in> K" unfolding k_def using fin ne by (rule Min_in)
    then have k1: "1 \<le> k" and k9: "k \<le> 9" and kn: "\<not> ?e (cl_i it + k)"
      by (auto simp add: K_def)
    have before: "\<forall>j\<in>{0..<k}. ?e (cl_i it + j)"
    proof
      fix j assume j: "j \<in> {0..<k}"
      show "?e (cl_i it + j)"
      proof (cases "j = 0")
        case True
        with gap(1) show ?thesis by simp
      next
        case False
        with j have "1 \<le> j" "j < k" by auto
        with k9 have "j \<notin> K \<Longrightarrow> ?e (cl_i it + j)" by (auto simp add: K_def)
        moreover have "j \<notin> K"
        proof
          assume "j \<in> K"
          with fin have "Min K \<le> j" by (rule Min_le)
          with \<open>j < k\<close> show False by (simp add: k_def)
        qed
        ultimately show ?thesis by blast
      qed
    qed
    have lt: "cl_i it < p"
    proof (rule ccontr)
      assume "\<not> cl_i it < p"
      with ip have "cl_i it = p" by simp
      with run' [of "p + k"] k1 k9 kn show False by simp
    qed
    have "cl_i it + k < p"
    proof (rule ccontr)
      assume "\<not> cl_i it + k < p"
      with lt k9 have "p \<le> cl_i it + k" "cl_i it + k \<le> p + 9" by simp_all
      with run' kn show False by blast
    qed
    with next_gap [OF idx i0 gap(2) k1 k9 before kn] lt show ?thesis by blast
  qed
qed

lemma scan_before_run:
  assumes idx: "0 \<le> index" and p0: "0 \<le> p"
    and run: "\<forall>k\<in>{p..<p + MAX_CELL_GAP}. cell_is_empty sheet (line_cell ax index k)"
    and far: "\<forall>j\<in>{0..<p + MAX_CELL_GAP}. Cell_value sheet (line_cell ax index j) \<noteq> Inr name"
    and it: "cl_axis it = ax" "cl_index it = index" "0 \<le> cl_i it" "cl_i it \<le> p"
            "highest_inhabited_i it < p"
  shows "enumerate_find sheet it i name = Some (Inr None)
       \<and> get_by_name_loop sheet series it name = Some (Inr None)"
  using it
proof (induction "nat (p - cl_i it)" arbitrary: it i rule: less_induct)
  case less
  have idx': "0 \<le> cl_index it" using less.prems idx by simp
  have run': "\<forall>k\<in>{p..<p + MAX_CELL_GAP}. cell_is_empty sheet (line_cell (cl_axis it) (cl_index it) k)"
    using run less.prems by simp
  from next_before_run [OF idx' less.prems(3,4,5) run']
  consider (stop) "CellLine_next sheet it = Inr None"
    | (step) h where "CellLine_next sheet it =
          Inr (Some (line_cell ax index (cl_i it), it\<lparr>highest_inhabited_i := h, cl_i := cl_i it + 1\<rparr>))"
        "h < p" "cl_i it < p"
    using less.prems(1,2) by auto
  then show ?case
  proof cases
    case stop
    then show ?thesis
      by (subst enumerate_find.simps, subst get_by_name_loop.simps) simp
  next
    case step
    let ?it' = "it\<lparr>highest_inhabited_i := h, cl_i := cl_i it + 1\<rparr>"
    from line_cell_value [OF idx less.prems(3)] obtain v
      where v: "Cell_value sheet (line_cell ax index (cl_i it)) = Inr v" by blast
    have "cl_i it \<in> {0..<p + MAX_CELL_GAP}"
      using less.prems(3) step(3) by (simp add: MAX_CELL_GAP_def)
    with far v have ne: "v \<noteq> name" by auto
    have "nat (p - cl_i ?it') < nat (p - cl_i it)" using step(3) by simp
    from less.hyps [OF this, of "i + 1"] less.prems step(2,3)
    have ih: "enumerate_find sheet ?it' (i + 1) name = Some (Inr None)
            \<and> get_by_name_loop sheet series ?it' name = Some (Inr None)"
      by simp
    show ?thesis
      by (subst enumerate_find.simps, subst get_by_name_loop.simps) (simp add: step(1) v ne ih)
  qed
qed

text \<open>
  Where the reference line can be iterated, name lookup sees only its gap-tolerant
  prefix. Let the reference line be one whose \<^verbatim>\<open>__iter__\<close> hands out the CellLine iterator (every
  xlwings line and every PyUno column), with a non-negative index. If ten consecutive
  cells of it from some position \<open>p\<close> on are empty and no cell before the end of that run
  has a value equal to the name, so that every cell with that value lies beyond the
  run, then \<^verbatim>\<open>LineSeries.get_by_name(name)\<close> on the series of that reference line
  returns None, and so does \<^verbatim>\<open>get_cell_by_reference(name)\<close> of every line whose
  reference line it is.
\<close>

lemma lookup_sees_only_prefix:
  assumes "Line_iter sheet ref = Inr it"
    and "0 \<le> line_index ref" and "0 \<le> p"
    and "\<forall>k\<in>{p..<p + MAX_CELL_GAP}. cell_is_empty sheet (Line_cell ref k)"
    and "\<forall>j\<in>{0..<p + MAX_CELL_GAP}. Cell_value sheet (Line_cell ref j) \<noteq> Inr name"
  shows "get_by_name sheet \<lparr>reference_line = ref\<rparr> name = Some (Inr None)
       \<and> (Line_reference_line sheet line = Inr ref
          \<longrightarrow> get_cell_by_reference sheet line name = Some (Inr None))"
proof -
  have it: "it = CellLine_init (Line_axis ref) (line_index ref)"
    using assms(1) by (rule Line_iter_init)
  have scan: "enumerate_find sheet it 0 name = Some (Inr None)
       \<and> get_by_name_loop sheet \<lparr>reference_line = ref\<rparr> it name = Some (Inr None)"
    using assms(2-5) unfolding Line_cell_def
    by (rule scan_before_run) (use assms(3) in \<open>simp_all add: it CellLine_init_def\<close>)
  then show ?thesis
    using assms(1) by (simp add: get_by_name_def get_cell_by_reference_def)
qed

lemma lookup_sees_only_prefix_example:
  "Cell_value (xw_row_sheet names_far) (Cell (12, 0)) = Inr (PStr ''zz'')
   \<and> get_by_name (xw_row_sheet names_far)
        \<lparr>reference_line = \<lparr>line_cls = Row, line_index = 0, reference_index = 0\<rparr>\<rparr> (PStr ''zz'') =
      Some (Inr None)
   \<and> get_cell_by_reference (xw_row_sheet names_far)
        \<lparr>line_cls = Row, line_index = 5, reference_index = 5\<rparr> (PStr ''zz'') = Some (Inr None)"
proof -
  let ?s = "xw_row_sheet names_far"
  let ?ref = "\<lparr>line_cls = Row, line_index = 0, reference_index = 0\<rparr>"
  have v: "Cell_value ?s (Cell (12, 0)) = Inr (PStr ''zz'')"
    by (simp add: iter_defs xw_row_sheet_def names_far_def)
  have i: "Line_iter ?s ?ref = Inr (CellLine_init AxisX 0)"
    by (simp add: Line_iter_def get_iterator_def xw_row_sheet_def)
  have c: "Line_cell ?ref j = Cell (j, 0)" for j
    by (simp add: Line_cell_def Line_axis_def line_cell_def line_position_def)
  have run: "\<forall>k\<in>{2..<2 + MAX_CELL_GAP}. cell_is_empty ?s (Line_cell ?ref k)"
    by (auto simp add: c MAX_CELL_GAP_def cell_is_empty_def iter_defs xw_row_sheet_def names_far_def)
  have far: "\<forall>j\<in>{0..<2 + MAX_CELL_GAP}. Cell_value ?s (Line_cell ?ref j) \<noteq> Inr (PStr ''zz'')"
    by (auto simp add: c MAX_CELL_GAP_def iter_defs xw_row_sheet_def names_far_def)
  have r: "Line_reference_line ?s \<lparr>line_cls = Row, line_index = 5, reference_index = 5\<rparr> = Inr ?ref"
    by (simp add: Line_reference_line_def iter_defs xw_row_sheet_def)
  from lookup_sees_only_prefix [OF i _ _ run far, of "\<lparr>line_cls = Row, line_index = 5, reference_index = 5\<rparr>"] r v
  show ?thesis by simp
qed

text \<open>
  C10. The claim fails where the reference line is a PyUno Row:
  \<^verbatim>\<open>Office.Uno.Row.__iter__\<close> calls \<^verbatim>\<open>get_iterator\<close> and returns nothing, so the
  \<^verbatim>\<open>for\<close> loop of both lookups raises TypeError before any cell is read. On the empty
  PyUno sheet the reference row is the Row of index 0, each of its cells is empty and
  none has the value \<open>zz\<close>, so every cell with that value lies beyond a run of ten
  empty cells; yet \<^verbatim>\<open>sheet.columns.get_by_name('zz')\<close> and
  \<^verbatim>\<open>get_cell_by_reference('zz')\<close> of a row raise instead of returning None.
\<close>

theorem C10_uno_row_lookup_raises:
  "Sheet_columns uno_empty_sheet =
     Inr \<lparr>reference_line = \<lparr>line_cls = Row, line_index = 0, reference_index = 0\<rparr>\<rparr>
   \<and> Line_reference_line uno_empty_sheet \<lparr>line_cls = Row, line_index = 5, reference_index = 5\<rparr> =
       Inr \<lparr>line_cls = Row, line_index = 0, reference_index = 0\<rparr>
   \<and> cell_is_empty uno_empty_sheet
       (Line_cell \<lparr>line_cls = Row, line_index = 0, reference_index = 0\<rparr> (int n))
   \<and> Cell_value uno_empty_sheet
       (Line_cell \<lparr>line_cls = Row, line_index = 0, reference_index = 0\<rparr> (int n)) = Inr PNone
   \<and> get_by_name uno_empty_sheet
       \<lparr>reference_line = \<lparr>line_cls = Row, line_index = 0, reference_index = 0\<rparr>\<rparr> (PStr ''zz'') =
       Some (Inl TypeError)
   \<and> get_cell_by_reference uno_empty_sheet
       \<lparr>line_cls = Row, line_index = 5, reference_index = 5\<rparr> (PStr ''zz'') = Some (Inl TypeError)"
proof -
  let ?ref = "\<lparr>line_cls = Row, line_index = 0, reference_index = 0\<rparr>"
  have r: "reference_row uno_empty_sheet = Inr ?ref"
    by (simp add: reference_row_def get_row_by_index_def uno_empty_sheet_def)
  have i: "Line_iter uno_empty_sheet ?ref = Inl TypeError"
    by (simp add: Line_iter_def uno_empty_sheet_def)
  have c: "Line_cell ?ref (int n) = Cell (int n, 0)"
    by (simp add: Line_cell_def Line_axis_def line_cell_def line_position_def)
  have e: "cell_is_empty uno_empty_sheet (Cell (int n, 0))"
    by (simp add: cell_is_empty_def Cell_string_def uno_empty_sheet_def uno_source_cell_def
          cell_x_def cell_y_def)
  have v: "Cell_value uno_empty_sheet (Cell (int n, 0)) = Inr PNone"
    by (simp add: Cell_value_def uno_empty_sheet_def uno_source_cell_def cell_x_def cell_y_def)
  have l: "Line_reference_line uno_empty_sheet \<lparr>line_cls = Row, line_index = 5, reference_index = 5\<rparr> = Inr ?ref"
    by (simp add: Line_reference_line_def r)
  show ?thesis
    by (simp add: Sheet_columns_def r l c e v get_by_name_def get_cell_by_reference_def i)
qed

section \<open>Clearing a line\<close>

text \<open>A call of \<^verbatim>\<open>__next__\<close> reads the sheet only from the cursor on.\<close>

lemma probe_cong:
  assumes "0 \<le> cl_index it" "0 \<le> cl_i it"
    and "\<forall>k\<in>set ks. 0 \<le> k \<and>
           Cell_string s1 (line_cell (cl_axis it) (cl_index it) (cl_i it + k)) =
           Cell_string s2 (line_cell (cl_axis it) (cl_index it) (cl_i it + k))"
  shows "probe s1 it ks = probe s2 it ks"
  using assms(3)
  by (induction ks) (simp_all add: get_cell_xy_line assms(1,2) split: sum.splits)

lemma next_cong:
  assumes "0 \<le> cl_index it" "0 \<le> cl_i it"
    and "\<And>j. cl_i it \<le> j \<Longrightarrow>
           Cell_string s1 (line_cell (cl_axis it) (cl_index it) j) =
           Cell_string s2 (line_cell (cl_axis it) (cl_index it) j)"
  shows "CellLine_next s1 it = CellLine_next s2 it"
proof -
  have "probe s1 it (py_range 1 MAX_CELL_GAP) = probe s2 it (py_range 1 MAX_CELL_GAP)"
    unfolding py_range_gap by (rule probe_cong [OF assms(1,2)]) (simp add: assms(3))
  then show ?thesis
    by (simp add: CellLine_next_def get_cell_xy_line assms(1,2) assms(3) [of "cl_i it"]
          split: sum.splits)
qed

lemma next_shape:
  assumes "0 \<le> cl_index it" "0 \<le> cl_i it" "CellLine_next sheet it = Inr (Some (c, it'))"
  shows "c = line_cell (cl_axis it) (cl_index it) (cl_i it) \<and> cl_i it' = cl_i it + 1
       \<and> cl_axis it' = cl_axis it \<and> cl_index it' = cl_index it"
  using assms(3)
  by (auto simp add: CellLine_next_def get_cell_xy_line assms(1,2)
        split: sum.splits option.splits if_splits)

lemma cleared_host_none: "cleared_host f line h hdr 0 = f"
  by (rule ext) (auto simp add: cleared_host_def split: option.splits)

lemma cleared_host_skip:
  assumes "\<not> (h < m \<or> hdr)"
  shows "cleared_host f line h hdr (m + 1) = cleared_host f line h hdr m"
  using assms by (intro ext) (auto simp add: cleared_host_def split: option.splits)

lemma xw_range_of_Line_cell:
  assumes "0 \<le> line_index line" "0 \<le> j"
  shows "\<exists>q. xw_range_of f (Line_cell line j) = Inr q \<and> xw_line_index_of line q = Some j
           \<and> (\<forall>q'. xw_line_index_of line q' = Some j \<longrightarrow> q' = q)"
  using assms
  by (auto simp add: xw_range_of_def Line_cell_def Line_axis_def line_cell_def line_position_def
        cell_x_def cell_y_def xw_line_index_of_def split: if_splits)

lemma cleared_host_clear:
  assumes q: "xw_line_index_of line q = Some m" "\<forall>q'. xw_line_index_of line q' = Some m \<longrightarrow> q' = q"
    and m: "0 \<le> m" "h < m \<or> hdr"
  shows "(cleared_host f line h hdr m)(q := cleared_range (cleared_host f line h hdr m q)) =
         cleared_host f line h hdr (m + 1)"
proof (rule ext)
  fix q'
  show "((cleared_host f line h hdr m)(q := cleared_range (cleared_host f line h hdr m q))) q' =
         cleared_host f line h hdr (m + 1) q'"
  proof (cases "q' = q")
    case True
    with q m show ?thesis by (simp add: cleared_host_def)
  next
    case False
    with q have "xw_line_index_of line q' \<noteq> Some m" by blast
    with False show ?thesis
      by (auto simp add: cleared_host_def split: option.splits)
  qed
qed

lemma cleared_zero: "i7e_sheet sheet = XW f \<Longrightarrow> spec_cleared sheet line hdr 0 = sheet"
  by (simp add: spec_cleared_def cleared_host_none)

lemma cleared_name_cell_index:
  "name_cell_index (spec_cleared sheet line hdr m) l = name_cell_index sheet l"
  by (simp add: spec_cleared_def name_cell_index_def split: i7e.splits)

lemma cleared_skip:
  assumes "\<not> (name_cell_index sheet line < m \<or> hdr)"
  shows "spec_cleared sheet line hdr (m + 1) = spec_cleared sheet line hdr m"
  using assms by (simp add: spec_cleared_def cleared_host_skip split: i7e.splits)

lemma cleared_tail_string:
  assumes "i7e_sheet sheet = XW f" "0 \<le> line_index line" "0 \<le> j" "m \<le> j"
  shows "Cell_string (spec_cleared sheet line hdr m) (Line_cell line j) =
         Cell_string sheet (Line_cell line j)"
proof -
  from xw_range_of_Line_cell [OF assms(2,3)] obtain q
    where q: "\<And>g. xw_range_of g (Line_cell line j) = Inr q" "xw_line_index_of line q = Some j"
    by (auto simp add: xw_range_of_def)
  show ?thesis
    using assms(1,4) by (simp add: Cell_string_def spec_cleared_def q cleared_host_def)
qed

lemma xw_range_of_host: "xw_range_of g c = xw_range_of g' c"
  by (simp add: xw_range_of_def)

lemma xw_clear_result:
  assumes "i7e_sheet s = XW g" "xw_range_of g c = Inr q"
  shows "Cell_clear s c = Inr (s\<lparr>i7e_sheet := XW (g(q := cleared_range (g q)))\<rparr>)"
proof -
  have 1: "Cell_set_value s c PNone = Inr (s\<lparr>i7e_sheet := XW (g(q := (g q)\<lparr>range_value := PNone\<rparr>))\<rparr>)"
    using assms by (simp add: Cell_set_value_def)
  have q': "xw_range_of (g(q := (g q)\<lparr>range_value := PNone\<rparr>)) c = Inr q"
    using assms(2) xw_range_of_host [of g c] by simp
  have 2: "Cell_set_color (s\<lparr>i7e_sheet := XW (g(q := (g q)\<lparr>range_value := PNone\<rparr>))\<rparr>) c DEFAULT_COLOR
         = Inr (s\<lparr>i7e_sheet := XW (g(q := cleared_range (g q)))\<rparr>)"
    by (simp add: Cell_set_color_def DEFAULT_COLOR_def q' cleared_range_def)
  show ?thesis by (simp add: Cell_clear_def 1 2)
qed

lemma cleared_clear:
  assumes "i7e_sheet sheet = XW f" "0 \<le> line_index line" "0 \<le> m"
    and "name_cell_index sheet line < m \<or> hdr"
  shows "Cell_clear (spec_cleared sheet line hdr m) (Line_cell line m) =
         Inr (spec_cleared sheet line hdr (m + 1))"
proof -
  let ?g = "cleared_host f line (name_cell_index sheet line) hdr m"
  from xw_range_of_Line_cell [OF assms(2,3), of ?g] obtain q
    where q: "xw_range_of ?g (Line_cell line m) = Inr q" "xw_line_index_of line q = Some m"
      "\<forall>q'. xw_line_index_of line q' = Some m \<longrightarrow> q' = q"
    by blast
  have s: "spec_cleared sheet line hdr m = sheet\<lparr>i7e_sheet := XW ?g\<rparr>"
    using assms(1) by (simp add: spec_cleared_def)
  have "i7e_sheet (sheet\<lparr>i7e_sheet := XW ?g\<rparr>) = XW ?g" by simp
  from xw_clear_result [OF this q(1)]
  have "Cell_clear (sheet\<lparr>i7e_sheet := XW ?g\<rparr>) (Line_cell line m) =
        Inr (sheet\<lparr>i7e_sheet := XW (?g(q := cleared_range (?g q)))\<rparr>)"
    by simp
  also have "?g(q := cleared_range (?g q)) = cleared_host f line (name_cell_index sheet line) hdr (m + 1)"
    using q(2,3) assms(3,4) by (rule cleared_host_clear)
  also have "sheet\<lparr>i7e_sheet := XW (cleared_host f line (name_cell_index sheet line) hdr (m + 1))\<rparr>
      = spec_cleared sheet line hdr (m + 1)"
    using assms(1) by (simp add: spec_cleared_def)
  finally show ?thesis unfolding s .
qed

lemma cleared_next:
  assumes "i7e_sheet sheet = XW f" "0 \<le> line_index line" "0 \<le> cl_i it"
    and "cl_axis it = Line_axis line" "cl_index it = line_index line"
  shows "CellLine_next (spec_cleared sheet line hdr (cl_i it)) it = CellLine_next sheet it"
proof (rule next_cong)
  show "0 \<le> cl_index it" "0 \<le> cl_i it" using assms by simp_all
  fix j assume "cl_i it \<le> j"
  with assms cleared_tail_string [OF assms(1,2), of j "cl_i it" hdr]
  show "Cell_string (spec_cleared sheet line hdr (cl_i it)) (line_cell (cl_axis it) (cl_index it) j) =
        Cell_string sheet (line_cell (cl_axis it) (cl_index it) j)"
    by (simp add: Line_cell_def)
qed

text \<open>
  Clearing a line of an xlwings sheet whose iteration ends: the loop of \<^verbatim>\<open>Line.clear\<close>
  follows the loop of \<^verbatim>\<open>__len__\<close> step by step, since a cleared cell lies behind the
  cursor of the iterator.
\<close>

lemma clear_loop_follows_len:
  assumes xw: "i7e_sheet sheet = XW f" and idx: "0 \<le> line_index line"
    and len: "Line_len_loop sheet it count = Some (Inr n)"
    and it: "cl_axis it = Line_axis line" "cl_index it = line_index line" "0 \<le> cl_i it"
  shows "Line_clear_loop (spec_cleared sheet line hdr (cl_i it)) line it (cl_i it) hdr =
         Some (Inr (spec_cleared sheet line hdr (cl_i it + (n - count))))"
proof -
  have "s = sheet \<longrightarrow> (\<forall>n. r = Inr n \<longrightarrow> cl_axis it = Line_axis line \<longrightarrow>
          cl_index it = line_index line \<longrightarrow> 0 \<le> cl_i it \<longrightarrow>
          Line_clear_loop (spec_cleared sheet line hdr (cl_i it)) line it (cl_i it) hdr =
            Some (Inr (spec_cleared sheet line hdr (cl_i it + (n - count)))))"
    if "Line_len_loop s it count = Some r" for s it count r
    using that
  proof (rule Line_len_loop.raw_induct [rotated])
    fix loop s it count r
    assume IH: "\<And>s it count r. loop s it count = Some r \<Longrightarrow>
        s = sheet \<longrightarrow> (\<forall>n. r = Inr n \<longrightarrow> cl_axis it = Line_axis line \<longrightarrow>
          cl_index it = line_index line \<longrightarrow> 0 \<le> cl_i it \<longrightarrow>
          Line_clear_loop (spec_cleared sheet line hdr (cl_i it)) line it (cl_i it) hdr =
            Some (Inr (spec_cleared sheet line hdr (cl_i it + (n - count)))))"
      and body: "(case CellLine_next s it of
                    Inl e \<Rightarrow> Some (Inl e)
                  | Inr None \<Rightarrow> Some (Inr count)
                  | Inr (Some (each, it')) \<Rightarrow> loop s it' (count + 1)) = Some r"
    show "s = sheet \<longrightarrow> (\<forall>n. r = Inr n \<longrightarrow> cl_axis it = Line_axis line \<longrightarrow>
          cl_index it = line_index line \<longrightarrow> 0 \<le> cl_i it \<longrightarrow>
          Line_clear_loop (spec_cleared sheet line hdr (cl_i it)) line it (cl_i it) hdr =
            Some (Inr (spec_cleared sheet line hdr (cl_i it + (n - count)))))"
    proof (intro impI allI)
      fix n
      assume s: "s = sheet" and r: "r = Inr n"
        and a: "cl_axis it = Line_axis line" "cl_index it = line_index line" "0 \<le> cl_i it"
      have nx: "CellLine_next (spec_cleared sheet line hdr (cl_i it)) it = CellLine_next sheet it"
        using xw idx a(3,1,2) by (rule cleared_next)
      have idx': "0 \<le> cl_index it" using a idx by simp
      show "Line_clear_loop (spec_cleared sheet line hdr (cl_i it)) line it (cl_i it) hdr =
            Some (Inr (spec_cleared sheet line hdr (cl_i it + (n - count))))"
      proof (cases "CellLine_next sheet it")
        case (Inl e)
        with body s r show ?thesis by simp
      next
        case (Inr step)
        show ?thesis
        proof (cases step)
          case None
          with Inr body s r have "n = count" by simp
          with Inr None nx show ?thesis
            by (subst Line_clear_loop.simps) simp
        next
          case (Some p)
          obtain c it' where p: "p = (c, it')" by (cases p)
          with Inr Some have step: "CellLine_next sheet it = Inr (Some (c, it'))" by simp
          from next_shape [OF idx' a(3) step] a
          have c: "c = Line_cell line (cl_i it)" and it': "cl_i it' = cl_i it + 1"
            "cl_axis it' = Line_axis line" "cl_index it' = line_index line"
            by (simp_all add: Line_cell_def)
          from body step s r have "loop sheet it' (count + 1) = Some (Inr n)" by simp
          from IH [OF this] it' a(3)
          have rec: "Line_clear_loop (spec_cleared sheet line hdr (cl_i it + 1)) line it' (cl_i it + 1) hdr =
                Some (Inr (spec_cleared sheet line hdr (cl_i it + (n - count))))"
            by (simp add: algebra_simps)
          show ?thesis
          proof (cases "name_cell_index sheet line < cl_i it \<or> hdr")
            case True
            from cleared_clear [OF xw idx a(3) True]
            have "Cell_clear (spec_cleared sheet line hdr (cl_i it)) c =
                  Inr (spec_cleared sheet line hdr (cl_i it + 1))"
              by (simp add: c)
            with True rec show ?thesis
              by (subst Line_clear_loop.simps) (simp add: nx step cleared_name_cell_index)
          next
            case False
            from cleared_skip [OF False] rec
            have rec': "Line_clear_loop (spec_cleared sheet line hdr (cl_i it)) line it' (cl_i it + 1) hdr =
                Some (Inr (spec_cleared sheet line hdr (cl_i it + (n - count))))"
              by simp
            show ?thesis
              by (subst Line_clear_loop.simps)
                 (simp only: nx step sum.case option.case prod.case cleared_name_cell_index
                    if_not_P [OF False] rec')
          qed
        qed
      qed
    qed
  qed
  from this [OF len] it show ?thesis by simp
qed

lemma Line_clear_result:
  assumes "i7e_sheet sheet = XW f" "0 \<le> line_index line" "Line_len sheet line = Some (Inr n)"
  shows "Line_clear sheet line hdr = Some (Inr (spec_cleared sheet line hdr n))"
proof -
  have i: "Line_iter sheet line = Inr (CellLine_init (Line_axis line) (line_index line))"
    using assms(1) by (simp add: Line_iter_def get_iterator_def Line_axis_def)
  with assms(3) have "Line_len_loop sheet (CellLine_init (Line_axis line) (line_index line)) 0 = Some (Inr n)"
    by (simp add: Line_len_def)
  from clear_loop_follows_len [OF assms(1,2) this, of hdr]
  show ?thesis
    by (simp add: Line_clear_def i CellLine_init_def cleared_zero [OF assms(1)])
qed

lemma cleared_cell:
  assumes "i7e_sheet sheet = XW f" "0 \<le> line_index line"
    and "0 \<le> j" "j < n" "name_cell_index sheet line < j \<or> hdr"
  shows "Cell_value (spec_cleared sheet line hdr n) (Line_cell line j) = Inr PNone"
    and "Cell_get_color (spec_cleared sheet line hdr n) (Line_cell line j) = Inr (ColorNum DEFAULT_COLOR)"
proof -
  let ?g = "cleared_host f line (name_cell_index sheet line) hdr n"
  from xw_range_of_Line_cell [OF assms(2,3), of ?g] obtain q
    where q: "xw_range_of ?g (Line_cell line j) = Inr q" "xw_line_index_of line q = Some j"
    by blast
  have g: "?g q = cleared_range (f q)"
    using q(2) assms(3,4,5) by (simp add: cleared_host_def)
  have s: "i7e_sheet (spec_cleared sheet line hdr n) = XW ?g"
    using assms(1) by (simp add: spec_cleared_def)
  show "Cell_value (spec_cleared sheet line hdr n) (Line_cell line j) = Inr PNone"
    by (simp add: Cell_value_def s q(1) g cleared_range_def)
  show "Cell_get_color (spec_cleared sheet line hdr n) (Line_cell line j) = Inr (ColorNum DEFAULT_COLOR)"
    by (simp add: Cell_get_color_def s q(1) g cleared_range_def DEFAULT_COLOR_def)
qed

lemma line_index_of_cell:
  assumes "xw_range_of f c = Inr q" "xw_line_index_of line q = Some j"
  shows "c = Line_cell line j \<and> 0 \<le> j"
  using assms
  by (cases c)
     (auto simp add: xw_range_of_def xw_line_index_of_def Line_cell_def Line_axis_def
        line_cell_def line_position_def cell_x_def cell_y_def Let_def split: if_splits)

lemma cleared_other_cell:
  assumes "i7e_sheet sheet = XW f"
    and "\<forall>j. 0 \<le> j \<and> j < n \<and> (name_cell_index sheet line < j \<or> hdr) \<longrightarrow> c \<noteq> Line_cell line j"
  shows "Cell_value (spec_cleared sheet line hdr n) c = Cell_value sheet c"
    and "Cell_get_color (spec_cleared sheet line hdr n) c = Cell_get_color sheet c"
proof -
  let ?g = "cleared_host f line (name_cell_index sheet line) hdr n"
  have s: "i7e_sheet (spec_cleared sheet line hdr n) = XW ?g"
    using assms(1) by (simp add: spec_cleared_def)
  have same: "?g q = f q" if "xw_range_of f c = Inr q" for q
  proof (cases "xw_line_index_of line q")
    case None
    then show ?thesis by (simp add: cleared_host_def)
  next
    case (Some j)
    from line_index_of_cell [OF that Some] assms(2)
    have "\<not> (0 \<le> j \<and> j < n \<and> (name_cell_index sheet line < j \<or> hdr))" by blast
    with Some show ?thesis by (auto simp add: cleared_host_def)
  qed
  have r: "xw_range_of ?g c = xw_range_of f c" by (rule xw_range_of_host)
  show "Cell_value (spec_cleared sheet line hdr n) c = Cell_value sheet c"
    using same by (simp add: Cell_value_def s assms(1) r split: sum.splits)
  show "Cell_get_color (spec_cleared sheet line hdr n) c = Cell_get_color sheet c"
    using same by (simp add: Cell_get_color_def s assms(1) r split: sum.splits)
qed

text \<open>
  C8, as amended. On an xlwings sheet, for a line with a non-negative index whose
  iteration returns \<open>n\<close> cells, \<^verbatim>\<open>clear(include_header)\<close> returns, and afterwards the
  cell \<open>j\<close> of the line, \<open>0 \<le> j < n\<close>, has no value and the default color exactly
  when \<open>j\<close> is strictly past \<^verbatim>\<open>name_cell_index\<close> or \<^verbatim>\<open>include_header\<close> is true; every
  other cell of the sheet has the value and the color it had. So with
  \<^verbatim>\<open>include_header\<close> false the header cell and the cells before it are unchanged, and
  with \<^verbatim>\<open>include_header\<close> true every cell the iteration returns is cleared, the header
  cell and the cells before it included.
\<close>

theorem C8_line_clear:
  assumes "i7e_sheet sheet = XW f" "0 \<le> line_index line" "Line_len sheet line = Some (Inr n)"
  shows "\<exists>sheet'. Line_clear sheet line include_header = Some (Inr sheet')
     \<and> (\<forall>j. 0 \<le> j \<and> j < n \<and> (name_cell_index sheet line < j \<or> include_header) \<longrightarrow>
            Cell_value sheet' (Line_cell line j) = Inr PNone
          \<and> Cell_get_color sheet' (Line_cell line j) = Inr (ColorNum DEFAULT_COLOR))
     \<and> (\<forall>c. (\<forall>j. 0 \<le> j \<and> j < n \<and> (name_cell_index sheet line < j \<or> include_header) \<longrightarrow>
                  c \<noteq> Line_cell line j) \<longrightarrow>
            Cell_value sheet' c = Cell_value sheet c
          \<and> Cell_get_color sheet' c = Cell_get_color sheet c)"
proof (intro exI conjI allI impI)
  show "Line_clear sheet line include_header = Some (Inr (spec_cleared sheet line include_header n))"
    using assms by (rule Line_clear_result)
next
  fix j assume j: "0 \<le> j \<and> j < n \<and> (name_cell_index sheet line < j \<or> include_header)"
  then show "Cell_value (spec_cleared sheet line include_header n) (Line_cell line j) = Inr PNone"
    using cleared_cell(1) [OF assms(1,2)] by blast
  from j show "Cell_get_color (spec_cleared sheet line include_header n) (Line_cell line j) =
      Inr (ColorNum DEFAULT_COLOR)"
    using cleared_cell(2) [OF assms(1,2)] by blast
next
  fix c
  assume c: "\<forall>j. 0 \<le> j \<and> j < n \<and> (name_cell_index sheet line < j \<or> include_header) \<longrightarrow>
              c \<noteq> Line_cell line j"
  show "Cell_value (spec_cleared sheet line include_header n) c = Cell_value sheet c"
    using assms(1) c by (rule cleared_other_cell(1))
  show "Cell_get_color (spec_cleared sheet line include_header n) c = Cell_get_color sheet c"
    using assms(1) c by (rule cleared_other_cell(2))
qed

lemma header_sheet_len:
  "Line_len xw_header_sheet \<lparr>line_cls = Row, line_index = 0, reference_index = 0\<rparr> = Some (Inr 3)"
proof -
  let ?s = "xw_header_sheet"
  have n: "CellLine_next ?s \<lparr>cl_axis = AxisX, cl_index = 0, cl_i = i, highest_inhabited_i = - 1\<rparr> =
      Inr (Some (Cell (i, 0), \<lparr>cl_axis = AxisX, cl_index = 0, cl_i = i + 1, highest_inhabited_i = - 1\<rparr>))"
    if "i \<in> {0, 1, 2}" for i
    using that by (auto simp add: iter_defs xw_header_sheet_def xw_row_sheet_def inhabited_at_def)
  have e: "CellLine_next ?s \<lparr>cl_axis = AxisX, cl_index = 0, cl_i = 3, highest_inhabited_i = - 1\<rparr> = Inr None"
    by (simp add: iter_defs xw_header_sheet_def xw_row_sheet_def inhabited_at_def)
  have "Line_len_loop ?s (CellLine_init AxisX 0) 0 = Some (Inr 3)"
    unfolding CellLine_init_def
    by (subst Line_len_loop.simps, simp add: n [of 0, simplified],
        subst Line_len_loop.simps, simp add: n [of 1, simplified],
        subst Line_len_loop.simps, simp add: n [of 2, simplified],
        subst Line_len_loop.simps, simp add: e)
  then show ?thesis
    by (simp add: Line_len_def Line_iter_def get_iterator_def xw_header_sheet_def xw_row_sheet_def)
qed

lemma header_sheet_xw: "\<exists>f. i7e_sheet xw_header_sheet = XW f"
  by (simp add: xw_header_sheet_def xw_row_sheet_def)

lemma header_sheet_facts:
  "name_cell_index xw_header_sheet \<lparr>line_cls = Row, line_index = 0, reference_index = 0\<rparr> = 1"
  "Cell_value xw_header_sheet (Cell (0, 0)) = Inr (PStr ''v'')"
  "Cell_value xw_header_sheet (Cell (1, 0)) = Inr (PStr ''v'')"
  "Line_cell \<lparr>line_cls = Row, line_index = 0, reference_index = 0\<rparr> j = Cell (j, 0)"
  by (simp_all add: name_cell_index_def xw_header_sheet_def xw_row_sheet_def inhabited_at_def
        Cell_value_def xw_range_of_def cell_x_def cell_y_def Line_cell_def Line_axis_def
        line_cell_def line_position_def)

text \<open>
  C8, as stated, fails: on the sheet whose reference column is column 1, the row 0 has
  its header at index 1 and the cell (0, 0) before it; \<^verbatim>\<open>clear(include_header=True)\<close>
  leaves that cell without its value.
\<close>

theorem C8_clear_with_header_clears_before_header:
  "name_cell_index xw_header_sheet \<lparr>line_cls = Row, line_index = 0, reference_index = 0\<rparr> = 1
   \<and> Cell_value xw_header_sheet (Cell (0, 0)) = Inr (PStr ''v'')
   \<and> Line_clear xw_header_sheet \<lparr>line_cls = Row, line_index = 0, reference_index = 0\<rparr> True =
       Some (Inr (spec_cleared xw_header_sheet
                    \<lparr>line_cls = Row, line_index = 0, reference_index = 0\<rparr> True 3))
   \<and> Cell_value (spec_cleared xw_header_sheet
                    \<lparr>line_cls = Row, line_index = 0, reference_index = 0\<rparr> True 3) (Cell (0, 0)) =
       Inr PNone"
proof -
  let ?row = "\<lparr>line_cls = Row, line_index = 0, reference_index = 0\<rparr>"
  from header_sheet_xw obtain f where f: "i7e_sheet xw_header_sheet = XW f" by blast
  have idx: "0 \<le> line_index ?row" by simp
  have c: "Line_clear xw_header_sheet ?row True = Some (Inr (spec_cleared xw_header_sheet ?row True 3))"
    using f idx header_sheet_len by (rule Line_clear_result)
  have "Cell_value (spec_cleared xw_header_sheet ?row True 3) (Line_cell ?row 0) = Inr PNone"
    by (rule cleared_cell(1) [OF f idx]) simp_all
  then have v: "Cell_value (spec_cleared xw_header_sheet ?row True 3) (Cell (0, 0)) = Inr PNone"
    by (simp add: header_sheet_facts(4))
  from c v header_sheet_facts(1,2) show ?thesis by simp
qed

theorem C8_line_clear_witness:
  "Line_len xw_header_sheet \<lparr>line_cls = Row, line_index = 0, reference_index = 0\<rparr> = Some (Inr 3)
   \<and> (\<exists>sheet'. Line_clear xw_header_sheet \<lparr>line_cls = Row, line_index = 0, reference_index = 0\<rparr> False =
                  Some (Inr sheet')
        \<and> Cell_value sheet' (Cell (2, 0)) = Inr PNone
        \<and> Cell_get_color sheet' (Cell (2, 0)) = Inr (ColorNum DEFAULT_COLOR)
        \<and> Cell_value sheet' (Cell (1, 0)) = Inr (PStr ''v'')
        \<and> Cell_value sheet' (Cell (0, 0)) = Inr (PStr ''v''))"
proof -
  let ?row = "\<lparr>line_cls = Row, line_index = 0, reference_index = 0\<rparr>"
  from header_sheet_xw obtain f where f: "i7e_sheet xw_header_sheet = XW f" by blast
  have idx: "0 \<le> line_index ?row" by simp
  from C8_line_clear [OF f idx header_sheet_len, of False] obtain sheet'
    where r: "Line_clear xw_header_sheet ?row False = Some (Inr sheet')"
      and cl: "\<And>j. 0 \<le> j \<and> j < 3 \<and> (name_cell_index xw_header_sheet ?row < j \<or> False) \<Longrightarrow>
            Cell_value sheet' (Line_cell ?row j) = Inr PNone
          \<and> Cell_get_color sheet' (Line_cell ?row j) = Inr (ColorNum DEFAULT_COLOR)"
      and un: "\<And>c. (\<forall>j. 0 \<le> j \<and> j < 3 \<and> (name_cell_index xw_header_sheet ?row < j \<or> False) \<longrightarrow>
                  c \<noteq> Line_cell ?row j) \<Longrightarrow>
            Cell_value sheet' c = Cell_value xw_header_sheet c"
    by blast
  from cl [of 2] have c2: "Cell_value sheet' (Cell (2, 0)) = Inr PNone"
      "Cell_get_color sheet' (Cell (2, 0)) = Inr (ColorNum DEFAULT_COLOR)"
    by (simp_all add: header_sheet_facts)
  from un [of "Cell (1, 0)"] have c1: "Cell_value sheet' (Cell (1, 0)) = Inr (PStr ''v'')"
    by (simp add: header_sheet_facts)
  from un [of "Cell (0, 0)"] have c0: "Cell_value sheet' (Cell (0, 0)) = Inr (PStr ''v'')"
    by (simp add: header_sheet_facts)
  from header_sheet_len r c2 c1 c0 show ?thesis by blast
qed

end
